theory Spec2Isabelle
  imports Main "HOL-Library.Word"
begin

section \<open>Strings\<close>

text \<open>
  A Go string is modelled as the list of its characters. The functions of package
  \<^verbatim>\<open>strings\<close> that the runner uses only ever look for ASCII characters, so one
  list element stands for one rune of the script.
\<close>

abbreviation squote :: char where "squote \<equiv> CHR 0x27"
abbreviation dquote :: char where "dquote \<equiv> CHR 0x22"
abbreviation newline :: char where "newline \<equiv> CHR 0x0A"
abbreviation backslash :: char where "backslash \<equiv> CHR 0x5C"
abbreviation semicolon :: char where "semicolon \<equiv> CHR 0x3B"

text \<open>\<^verbatim>\<open>strings.HasPrefix\<close> and \<^verbatim>\<open>strings.Contains\<close>.\<close>

fun hasPrefix :: "string \<Rightarrow> string \<Rightarrow> bool" where
  "hasPrefix s [] = True"
| "hasPrefix [] (p # ps) = False"
| "hasPrefix (c # cs) (p # ps) = (c = p \<and> hasPrefix cs ps)"

fun containsStr :: "string \<Rightarrow> string \<Rightarrow> bool" where
  "containsStr [] sub = (sub = [])"
| "containsStr (c # cs) sub = (hasPrefix (c # cs) sub \<or> containsStr cs sub)"

text \<open>\<^verbatim>\<open>strings.TrimLeft\<close>, \<^verbatim>\<open>strings.TrimRight\<close> and \<^verbatim>\<open>strings.Trim\<close>: the cutset is a set of
  characters, given as a string.\<close>

definition trimLeft :: "string \<Rightarrow> string \<Rightarrow> string" where
  "trimLeft s cutset = dropWhile (\<lambda>c. c \<in> set cutset) s"

definition trimRight :: "string \<Rightarrow> string \<Rightarrow> string" where
  "trimRight s cutset = rev (dropWhile (\<lambda>c. c \<in> set cutset) (rev s))"

definition trimBoth :: "string \<Rightarrow> string \<Rightarrow> string" where
  "trimBoth s cutset = trimRight (trimLeft s cutset) cutset"

text \<open>\<^verbatim>\<open>strings.ToUpper\<close> on the ASCII letters; every other character is kept.\<close>

definition upperChar :: "char \<Rightarrow> char" where
  "upperChar c =
     (let n = (of_char c :: nat) in
      if 97 \<le> n \<and> n \<le> 122 then char_of (n - 32) else c)"

definition toUpper :: "string \<Rightarrow> string" where
  "toUpper s = map upperChar s"

section \<open>The database runner: separating statements\<close>

text \<open>
  \<^verbatim>\<open>separateStmt\<close> (db.go). The loop over the runes of the script carries the statements
  found so far, the runes of the statement being read, and the two quote flags
  \<^verbatim>\<open>ins\<close> and \<^verbatim>\<open>ind\<close>. It returns the statements and the runes left in \<^verbatim>\<open>s\<close>.
\<close>

fun separateLoop ::
  "string \<Rightarrow> string list \<Rightarrow> string \<Rightarrow> bool \<Rightarrow> bool \<Rightarrow> string list \<times> string" where
  "separateLoop [] stmts s ins ind = (stmts, s)"
| "separateLoop (c # cs) stmts s ins ind =
     (let s' = s @ [c] in
      if c = squote then separateLoop cs stmts s' (\<not> ins) ind
      else if c = dquote then separateLoop cs stmts s' ins (\<not> ind)
      else if c = semicolon then
        (if \<not> ins \<and> \<not> ind
         then separateLoop cs (stmts @ [trimBoth s' [CHR '' '', newline]]) [] ins ind
         else separateLoop cs stmts s' ins ind)
      else separateLoop cs stmts s' ins ind)"

definition trailingCutset :: string where
  "trailingCutset = [CHR '' '', newline, backslash, CHR ''n'', dquote]"

definition separateStmt :: "string \<Rightarrow> string list" where
  "separateStmt stmt =
     (if \<not> containsStr stmt [semicolon] then [stmt]
      else
        (case separateLoop stmt [] [] False False of
           (stmts, s) \<Rightarrow>
             if length s > 0 then
               (let l = trimRight s trailingCutset in
                if length l > 0 then stmts @ [l] else stmts)
             else stmts))"

section \<open>Values, errors and Go maps\<close>

text \<open>
  The dynamic values (\<^verbatim>\<open>interface{}\<close>) that travel through step payloads, the store and
  database rows. A \<^verbatim>\<open>float64\<close> is carried as its IEEE-754 bit pattern and a \<^verbatim>\<open>time.Time\<close>
  as its instant in nanoseconds: the runner only stores them. \<^verbatim>\<open>VInt\<close> is a Go \<^verbatim>\<open>int\<close>,
  \<^verbatim>\<open>VInt64\<close> an \<^verbatim>\<open>int64\<close>, \<^verbatim>\<open>VBytes\<close> a \<^verbatim>\<open>[]byte\<close>, \<^verbatim>\<open>VFunc\<close> the
  \<^verbatim>\<open>string(x)\<close> helper that \<^verbatim>\<open>expand\<close> puts into the store map.
\<close>

type_synonym float64 = "64 word"
type_synonym time = int

datatype val =
    VNil
  | VBool bool
  | VInt int
  | VInt64 int
  | VFloat float64
  | VString string
  | VBytes string
  | VTime time
  | VList "val list"
  | VMap "(string \<times> val) list"
  | VFunc

text \<open>
  A Go map is an association list with distinct keys. \<^verbatim>\<open>m[k] = v\<close> is \<open>mapSet\<close>,
  \<^verbatim>\<open>v, ok := m[k]\<close> is \<open>map_of\<close>, \<^verbatim>\<open>delete(m, k)\<close> is \<open>mapDelete\<close> and \<^verbatim>\<open>len(m)\<close> is the
  length of the list. The order of the list stands for the order in which \<^verbatim>\<open>range\<close>
  happens to visit the map.
\<close>

fun mapSet :: "('k \<times> 'v) list \<Rightarrow> 'k \<Rightarrow> 'v \<Rightarrow> ('k \<times> 'v) list" where
  "mapSet [] k v = [(k, v)]"
| "mapSet ((k', v') # m) k v = (if k' = k then (k, v) # m else (k', v') # mapSet m k v)"

definition mapDelete :: "('k \<times> 'v) list \<Rightarrow> 'k \<Rightarrow> ('k \<times> 'v) list" where
  "mapDelete m k = filter (\<lambda>kv. fst kv \<noteq> k) m"

text \<open>
  Errors are values. \<open>External\<close> is an error made by a collaborator outside these files
  (a driver, a runner, a library), known by its message. \<open>NumError\<close> is the error of
  package \<^verbatim>\<open>strconv\<close>. \<open>IndexOutOfRange\<close> is the run-time panic of an index expression
  (the index and the length). \<open>Errorf\<close> is \<^verbatim>\<open>fmt.Errorf\<close> with the format string of
  the source and its arguments, \<open>ErrorsNew\<close> is \<^verbatim>\<open>errors.New\<close>, and \<open>MultiError\<close> is
  the list that \<^verbatim>\<open>multierror.Append\<close> builds. \<open>TypeAssertionFailed\<close> is the panic of
  a type assertion \<^verbatim>\<open>x.(T)\<close> on a value of another type.
\<close>

datatype numError = ErrSyntax | ErrRange

datatype error =
    External string
  | NumError string numError
  | IndexOutOfRange nat nat
  | TypeAssertionFailed val
  | Errorf string "errArg list"
  | ErrorsNew string
  | MultiError "error list"
and errArg =
    AStr string
  | ANat nat
  | AVal val
  | AErr error

section \<open>Decimal numbers\<close>

text \<open>\<^verbatim>\<open>strconv.Itoa\<close> and the \<^verbatim>\<open>%d\<close> verb of \<^verbatim>\<open>fmt\<close>.\<close>

definition digitChar :: "nat \<Rightarrow> char" where
  "digitChar d = char_of (48 + d)"

function showNat :: "nat \<Rightarrow> string" where
  "showNat n = (if n < 10 then [digitChar n] else showNat (n div 10) @ [digitChar (n mod 10)])"
  by pat_completeness auto
termination
  by (relation "measure (\<lambda>n. n)") auto

definition itoa :: "int \<Rightarrow> string" where
  "itoa i = (if i < 0 then CHR ''-'' # showNat (nat (- i)) else showNat (nat i))"

text \<open>
  \<^verbatim>\<open>strconv.Atoi\<close> on a 64-bit platform: an optional sign, then decimal digits read
  left to right by \<^verbatim>\<open>ParseUint\<close>, which reports a character that is no digit as a
  syntax error and an overflow of 64 bits as a range error, whichever comes first;
  then the range of \<^verbatim>\<open>int\<close>.
\<close>

definition isDigit :: "char \<Rightarrow> bool" where
  "isDigit c = (48 \<le> (of_char c :: nat) \<and> (of_char c :: nat) \<le> 57)"

fun parseUint :: "nat \<Rightarrow> string \<Rightarrow> numError + nat" where
  "parseUint n [] = Inr n"
| "parseUint n (c # cs) =
     (if \<not> isDigit c then Inl ErrSyntax
      else if n \<ge> 2 ^ 64 div 10 + 1 then Inl ErrRange
      else
        (let n1 = n * 10 + (of_char c - 48) in
         if n1 > 2 ^ 64 - 1 then Inl ErrRange else parseUint n1 cs))"

definition atoi :: "string \<Rightarrow> error + int" where
  "atoi s0 =
     (if s0 = [] then Inl (NumError s0 ErrSyntax)
      else
        (let neg = (hd s0 = CHR ''-'');
             s = (if hd s0 = CHR ''+'' \<or> hd s0 = CHR ''-'' then tl s0 else s0)
         in if s = [] then Inl (NumError s0 ErrSyntax)
            else
              (case parseUint 0 s of
                 Inl ErrSyntax \<Rightarrow> Inl (NumError s0 ErrSyntax)
               | Inl ErrRange \<Rightarrow> Inl (NumError s0 ErrRange)
               | Inr un \<Rightarrow>
                   if \<not> neg \<and> un \<ge> 2 ^ 63 then Inl (NumError s0 ErrRange)
                   else if neg \<and> un > 2 ^ 63 then Inl (NumError s0 ErrRange)
                   else Inr (if neg then - int un else int un))))"

section \<open>The store and the operator\<close>

text \<open>
  The records of operator.go. A pointer to a runner that is either nil or set is an
  \<open>option\<close> (for the runners whose files are not among the sources, a \<open>bool\<close>: set or
  nil). An HTTP runner is known by the name it is registered under, its endpoint
  and the configuration its validator was made from. The fields \<^verbatim>\<open>interval\<close>, \<^verbatim>\<open>t\<close>
  and \<^verbatim>\<open>out\<close> of the operator and of the book (sleeping between steps, the test
  handle and the debug writer) are left out: nothing below reads them.
\<close>

record store =
  steps :: "val list"
  stepMaps :: "(string \<times> val) list"
  vars :: "(string \<times> val) list"
  bindVars :: "(string \<times> val) list"
  useMaps :: bool

record RunnerConfig =
  Endpoint :: string
  OpenApi3DocLocation :: string

record httpRunner =
  name :: string
  endpoint :: string
  validator :: "RunnerConfig option"

record dbRunner =
  name :: string

record step =
  key :: string
  runnerKey :: string
  httpRunner :: "httpRunner option"
  httpRequest :: "(string \<times> val) list option"
  dbRunner :: "dbRunner option"
  dbQuery :: "(string \<times> val) list option"
  execRunner :: bool
  execCommand :: "(string \<times> val) list option"
  testRunner :: bool
  testCond :: string
  dumpRunner :: bool
  dumpCond :: string
  bindRunner :: bool
  bindCond :: "(string \<times> string) list option"
  includeRunner :: bool
  includePath :: string
  debug :: bool

text \<open>What the capturers of the operator are told by the database runner, in order.\<close>

record DBResponse =
  LastInsertID :: int
  RowsAffected :: int
  Columns :: "string list"
  Rows :: "(string \<times> val) list list"

datatype capture =
    CaptureDBStatement string string
  | CaptureDBResponse string DBResponse

text \<open>
  The book that the options of \<^verbatim>\<open>New\<close> fill in. Its type is declared in a file that is
  not among the sources; these are the fields that \<^verbatim>\<open>New\<close> reads (\<open>IfCond\<close> is the
  field \<^verbatim>\<open>If\<close>).
\<close>

record book =
  Desc :: string
  Runners :: "(string \<times> val) list"
  Vars :: "(string \<times> val) list"
  Steps :: "(string \<times> val) list list"
  Debug :: bool
  IfCond :: string
  stepKeys :: "string list"
  path :: string
  httpRunners :: "(string \<times> httpRunner) list"
  dbRunners :: "(string \<times> dbRunner) list"
  failFast :: bool
  included :: bool
  runnerErrs :: "(string \<times> error) list"

record operator =
  httpRunners :: "(string \<times> httpRunner) list"
  dbRunners :: "(string \<times> dbRunner) list"
  steps :: "step list"
  store :: store
  desc :: string
  useMaps :: bool
  debug :: bool
  root :: string
  failFast :: bool
  included :: bool
  cond :: string
  skipped :: bool
  capturers :: "capture list"

text \<open>\<^verbatim>\<open>store.toMap\<close>.\<close>

definition storeVarsKey :: string where "storeVarsKey = ''vars''"
definition storeStepsKey :: string where "storeStepsKey = ''steps''"

definition toMap :: "store \<Rightarrow> (string \<times> val) list" where
  "toMap s =
     (let m0 = mapSet [] storeVarsKey (VMap (vars s));
          m1 = (if store.useMaps s then mapSet m0 storeStepsKey (VMap (stepMaps s))
                else mapSet m0 storeStepsKey (VList (store.steps s)))
      in foldl (\<lambda>m kv. mapSet m (fst kv) (snd kv)) m1 (bindVars s))"

text \<open>
  \<^verbatim>\<open>operator.record\<close> (\<open>record\<close> is a keyword, hence \<open>record_val\<close>). In named mode the key is read from
  \<^verbatim>\<open>o.steps[len(o.store.stepMaps)]\<close>, which panics when the index is out of range.
\<close>

definition record_val :: "operator \<Rightarrow> val \<Rightarrow> error + operator" where
  "record_val op v =
     (if operator.useMaps op \<and> length (operator.steps op) > 0 then
        (let n = length (stepMaps (store op)) in
         if n < length (operator.steps op)
         then Inr (op\<lparr>store := (store op)\<lparr>stepMaps :=
                 mapSet (stepMaps (store op)) (key (operator.steps op ! n)) v\<rparr>\<rparr>)
         else Inl (IndexOutOfRange n (length (operator.steps op))))
      else Inr (op\<lparr>store := (store op)\<lparr>store.steps := store.steps (store op) @ [v]\<rparr>\<rparr>))"

definition capture :: "capture \<Rightarrow> operator \<Rightarrow> operator" where
  "capture c op = op\<lparr>capturers := capturers op @ [c]\<rparr>"

section \<open>The database runner\<close>

text \<open>
  The transaction of \<^verbatim>\<open>database/sql\<close> is a collaborator: \<open>'db\<close> is the state of the
  database and of the open transaction, and a driver says what each call returns
  and how it changes that state. An \<^verbatim>\<open>sql.Result\<close> gives the two counters, each with
  the error the driver may report for it. An \<^verbatim>\<open>sql.Rows\<close> gives the columns, the
  database type name of each column, what each \<^verbatim>\<open>Scan\<close> after a successful \<^verbatim>\<open>Next\<close>
  returns, and the error \<^verbatim>\<open>Err\<close> reports once \<^verbatim>\<open>Next\<close> is false.
\<close>

record execResult =
  lastInsertId :: "int \<times> error option"
  rowsAffected :: "int \<times> error option"

record rowsResult =
  columns :: "error + string list"
  columnTypes :: "error + string list"
  scans :: "(error + val list) list"
  rowsErr :: "error option"

record 'db driver =
  beginTx :: "'db \<Rightarrow> error option \<times> 'db"
  execContext :: "string \<Rightarrow> 'db \<Rightarrow> (error + execResult) \<times> 'db"
  queryContext :: "string \<Rightarrow> 'db \<Rightarrow> (error + rowsResult) \<times> 'db"
  rollback :: "'db \<Rightarrow> error option \<times> 'db"
  commit :: "'db \<Rightarrow> error option \<times> 'db"

text \<open>
  The parsers of other packages that the coercion of a column calls:
  \<^verbatim>\<open>strconv.ParseFloat(s, 64)\<close>, \<^verbatim>\<open>dateparse.ParseStrict\<close> and \<^verbatim>\<open>json.Unmarshal\<close> into a
  \<^verbatim>\<open>map[string]interface{}\<close>.
\<close>

record parsers =
  parseFloat :: "string \<Rightarrow> error + float64"
  parseStrict :: "string \<Rightarrow> error + time"
  jsonUnmarshal :: "string \<Rightarrow> error + (string \<times> val) list"

definition dbStoreLastInsertIDKey :: string where "dbStoreLastInsertIDKey = ''last_insert_id''"
definition dbStoreRowsAffectedKey :: string where "dbStoreRowsAffectedKey = ''rows_affected''"
definition dbStoreRowsKey :: string where "dbStoreRowsKey = ''rows''"

record dbQuery =
  stmt :: string

text \<open>
  The type switch on one scanned value (the body of the loop over the columns in
  \<^verbatim>\<open>dbRunner.Run\<close>): \<open>c\<close> is the column, \<open>tn\<close> the database type name of the column.
\<close>

definition invalidColumn :: "string \<Rightarrow> string \<Rightarrow> string \<Rightarrow> error \<Rightarrow> error" where
  "invalidColumn c t s e =
     Errorf ''invalid column: evaluated %s, but got %s(%v): %w'' [AStr c, AStr t, AStr s, AErr e]"

definition coerceColumn :: "parsers \<Rightarrow> string \<Rightarrow> string \<Rightarrow> val \<Rightarrow> error + val" where
  "coerceColumn ps c tn v =
     (case v of
        VBytes s \<Rightarrow>
          (let t = toUpper tn in
           if containsStr t ''TEXT'' \<or> containsStr t ''CHAR'' \<or> t = ''TIME'' then Inr (VString s)
           else if t = ''DECIMAL'' \<or> t = ''FLOAT'' \<or> t = ''DOUBLE'' then
             (case parseFloat ps s of
                Inl e \<Rightarrow> Inl (invalidColumn c t s e)
              | Inr num \<Rightarrow> Inr (VFloat num))
           else if t = ''DATE'' \<or> t = ''TIMESTAMP'' \<or> t = ''DATETIME'' then
             (case parseStrict ps s of
                Inl e \<Rightarrow> Inl (invalidColumn c t s e)
              | Inr d \<Rightarrow> Inr (VTime d))
           else if containsStr t ''JSONB'' then
             (case jsonUnmarshal ps s of
                Inl e \<Rightarrow> Inl (invalidColumn c t s e)
              | Inr jsonColumn \<Rightarrow> Inr (VMap jsonColumn))
           else
             (case atoi s of
                Inl e \<Rightarrow> Inl (invalidColumn c t s e)
              | Inr num \<Rightarrow> Inr (VInt num)))
      | _ \<Rightarrow> Inr v)"

text \<open>
  The loop over the columns of one row. \<open>i\<close> is the index of the column \<open>c\<close>. The slot
  \<^verbatim>\<open>vals[i]\<close> is nil unless \<^verbatim>\<open>Scan\<close> has filled it; \<^verbatim>\<open>types[i]\<close> is read only for a
  \<^verbatim>\<open>[]byte\<close> and panics when out of range.
\<close>

fun coerceRow ::
  "parsers \<Rightarrow> string list \<Rightarrow> val list \<Rightarrow> nat \<Rightarrow> string list \<Rightarrow> (string \<times> val) list
     \<Rightarrow> error + (string \<times> val) list" where
  "coerceRow ps types vals i [] row = Inr row"
| "coerceRow ps types vals i (c # cs) row =
     (let v = (if i < length vals then vals ! i else VNil) in
      case v of
        VBytes s \<Rightarrow>
          (if i < length types then
             (case coerceColumn ps c (types ! i) v of
                Inl e \<Rightarrow> Inl e
              | Inr x \<Rightarrow> coerceRow ps types vals (Suc i) cs (mapSet row c x))
           else Inl (IndexOutOfRange i (length types)))
      | _ \<Rightarrow>
          (case coerceColumn ps c [] v of
             Inl e \<Rightarrow> Inl e
           | Inr x \<Rightarrow> coerceRow ps types vals (Suc i) cs (mapSet row c x)))"

text \<open>The loop \<^verbatim>\<open>for r.Next()\<close>.\<close>

fun scanRows ::
  "parsers \<Rightarrow> string list \<Rightarrow> string list \<Rightarrow> (error + val list) list
     \<Rightarrow> (string \<times> val) list list \<Rightarrow> error + (string \<times> val) list list" where
  "scanRows ps cols types [] rows = Inr rows"
| "scanRows ps cols types (sc # rest) rows =
     (case sc of
        Inl e \<Rightarrow> Inl e
      | Inr vals \<Rightarrow>
          (case coerceRow ps types vals 0 cols [] of
             Inl e \<Rightarrow> Inl e
           | Inr row \<Rightarrow> scanRows ps cols types rest (rows @ [row])))"

text \<open>
  The function literal that \<^verbatim>\<open>dbRunner.Run\<close> calls for each statement: it returns the
  error, or the new value of \<^verbatim>\<open>out\<close>.
\<close>

definition isSelect :: "string \<Rightarrow> bool" where
  "isSelect st = hasPrefix (toUpper st) ''SELECT''"

definition runStmt ::
  "'db driver \<Rightarrow> parsers \<Rightarrow> string \<Rightarrow> string \<Rightarrow> operator \<times> 'db
     \<Rightarrow> (error + (string \<times> val) list) \<times> operator \<times> 'db" where
  "runStmt d ps rn st s =
     (case s of (op, tx) \<Rightarrow>
      if \<not> isSelect st then
        (case execContext d st tx of
           (Inl e, tx') \<Rightarrow> (Inl e, op, tx')
         | (Inr r, tx') \<Rightarrow>
             (let id = fst (lastInsertId r);
                  a = fst (rowsAffected r);
                  out = mapSet (mapSet [] dbStoreLastInsertIDKey (VInt64 id))
                          dbStoreRowsAffectedKey (VInt64 a);
                  op' = capture (CaptureDBResponse rn
                          \<lparr>LastInsertID = id, RowsAffected = a, Columns = [], Rows = []\<rparr>) op
              in (Inr out, op', tx')))
      else
        (case queryContext d st tx of
           (Inl e, tx') \<Rightarrow> (Inl e, op, tx')
         | (Inr r, tx') \<Rightarrow>
             (case columns r of
                Inl e \<Rightarrow> (Inl e, op, tx')
              | Inr cols \<Rightarrow>
                  (case columnTypes r of
                     Inl e \<Rightarrow> (Inl e, op, tx')
                   | Inr types \<Rightarrow>
                       (case scanRows ps cols types (scans r) [] of
                          Inl e \<Rightarrow> (Inl e, op, tx')
                        | Inr rows \<Rightarrow>
                            (case rowsErr r of
                               Some e \<Rightarrow> (Inl e, op, tx')
                             | None \<Rightarrow>
                                 (let op' = capture (CaptureDBResponse rn
                                        \<lparr>LastInsertID = 0, RowsAffected = 0,
                                         Columns = cols, Rows = rows\<rparr>) op;
                                      out = mapSet [] dbStoreRowsKey (VList (map VMap rows))
                                  in (Inr out, op', tx'))))))))"

text \<open>The loop over the statements: it stops at the first error.\<close>

fun runStmts ::
  "'db driver \<Rightarrow> parsers \<Rightarrow> string \<Rightarrow> string list \<Rightarrow> (string \<times> val) list
     \<Rightarrow> operator \<times> 'db \<Rightarrow> (error + (string \<times> val) list) \<times> operator \<times> 'db" where
  "runStmts d ps rn [] out s = (Inr out, s)"
| "runStmts d ps rn (st # rest) out s =
     (case runStmt d ps rn st (capture (CaptureDBStatement rn st) (fst s), snd s) of
        (Inl e, s') \<Rightarrow> (Inl e, s')
      | (Inr out', s') \<Rightarrow> runStmts d ps rn rest out' s')"

text \<open>
  \<^verbatim>\<open>dbRunner.Run\<close>. It returns the error (or nil), the operator and the database.
\<close>

definition Run ::
  "'db driver \<Rightarrow> parsers \<Rightarrow> dbRunner \<Rightarrow> dbQuery \<Rightarrow> operator \<times> 'db
     \<Rightarrow> error option \<times> operator \<times> 'db" where
  "Run d ps rnr q s =
     (case s of (op, db) \<Rightarrow>
      (case beginTx d db of
        (Some e, db') \<Rightarrow> (Some e, op, db')
      | (None, tx) \<Rightarrow>
          (case runStmts d ps (dbRunner.name rnr) (separateStmt (stmt q)) [] (op, tx) of
             (Inl e, op1, tx1) \<Rightarrow>
               (case rollback d tx1 of
                  (Some e', tx2) \<Rightarrow> (Some e', op1, tx2)
                | (None, tx2) \<Rightarrow> (Some e, op1, tx2))
           | (Inr out, op1, tx1) \<Rightarrow>
               (case commit d tx1 of
                  (Some e, tx2) \<Rightarrow> (Some e, op1, tx2)
                | (None, tx2) \<Rightarrow>
                    (case record_val op1 (VMap out) of
                       Inl e \<Rightarrow> (Some e, op1, tx2)
                     | Inr op2 \<Rightarrow> (None, op2, tx2))))))"

section \<open>Building an operator\<close>

text \<open>
  Modelled from the spec: the reserved keys of a step and of a book. Their constants
  (\<^verbatim>\<open>testRunnerKey\<close> and the others) are declared in files that are not among the
  sources; section 6 of the specification names the keys \<^verbatim>\<open>exec\<close>, \<^verbatim>\<open>include\<close>,
  \<^verbatim>\<open>test\<close>, \<^verbatim>\<open>dump\<close> and \<^verbatim>\<open>bind\<close>, and the two section keys are the names of the
  guard and of the description of a book.
\<close>

definition testRunnerKey :: string where "testRunnerKey = ''test''"
definition dumpRunnerKey :: string where "dumpRunnerKey = ''dump''"
definition bindRunnerKey :: string where "bindRunnerKey = ''bind''"
definition includeRunnerKey :: string where "includeRunnerKey = ''include''"
definition execRunnerKey :: string where "execRunnerKey = ''exec''"
definition ifSectionKey :: string where "ifSectionKey = ''if''"
definition descSectionKey :: string where "descSectionKey = ''desc''"

text \<open>
  The functions of other files and packages that \<^verbatim>\<open>New\<close> and \<^verbatim>\<open>AppendStep\<close> call: the
  constructors of the runners (each may fail), \<^verbatim>\<open>newBook\<close>, \<^verbatim>\<open>os.Getwd\<close>,
  \<^verbatim>\<open>filepath.Dir\<close> and \<^verbatim>\<open>filepath.Join\<close>, the YAML round trip that reads a
  \<^verbatim>\<open>RunnerConfig\<close> from a mapping, and \<^verbatim>\<open>NewHttpValidator\<close>. A constructor is given the
  operator to keep a pointer to it; what it returns does not depend on the
  operator.
\<close>

record collaborators =
  newBook :: book
  getwd :: "error + string"
  filepathDir :: "string \<Rightarrow> string"
  filepathJoin :: "string \<Rightarrow> string \<Rightarrow> string"
  newHTTPRunner :: "string \<Rightarrow> string \<Rightarrow> error + httpRunner"
  newDBRunner :: "string \<Rightarrow> string \<Rightarrow> error + dbRunner"
  readRunnerConfig :: "(string \<times> val) list \<Rightarrow> error + RunnerConfig"
  NewHttpValidator :: "RunnerConfig \<Rightarrow> error option"
  newTestRunner :: "error option"
  newDumpRunner :: "error option"
  newBindRunner :: "error option"
  newIncludeRunner :: "error option"
  newExecRunner :: "error option"

text \<open>
  The type assertions \<^verbatim>\<open>v.(string)\<close>, \<^verbatim>\<open>v.(map[string]interface{})\<close> and \<^verbatim>\<open>v.(bool)\<close> in
  their two-valued form: \<open>None\<close> where \<^verbatim>\<open>ok\<close> is false.
\<close>

definition asString :: "val \<Rightarrow> string option" where
  "asString v = (case v of VString s \<Rightarrow> Some s | _ \<Rightarrow> None)"

definition asMap :: "val \<Rightarrow> (string \<times> val) list option" where
  "asMap v = (case v of VMap m \<Rightarrow> Some m | _ \<Rightarrow> None)"

definition asBool :: "val \<Rightarrow> bool option" where
  "asBool v = (case v of VBool b \<Rightarrow> Some b | _ \<Rightarrow> None)"

text \<open>\<^verbatim>\<open>validateStepKeys\<close>.\<close>

definition validateStepKeys :: "(string \<times> val) list \<Rightarrow> error option" where
  "validateStepKeys s =
     (if length s = 0 then Some (ErrorsNew ''step must specify at least one runner'')
      else
        (let custom = length (filter (\<lambda>kv. \<not> (fst kv = testRunnerKey \<or> fst kv = dumpRunnerKey \<or>
                                           fst kv = bindRunnerKey)) s)
         in if custom > 1
            then Some (ErrorsNew ''runners that cannot be running at the same time are specified'')
            else None))"

text \<open>
  \<^verbatim>\<open>pop\<close>: the entry that \<^verbatim>\<open>range\<close> visits first, and the map without it.
\<close>

definition pop :: "(string \<times> val) list \<Rightarrow> (string \<times> val \<times> (string \<times> val) list) option" where
  "pop s = (case s of [] \<Rightarrow> None | (k, v) # rest \<Rightarrow> Some (k, v, rest))"

text \<open>
  \<^verbatim>\<open>AppendStep\<close>, in the order of the source: the test runner, the dump runner, the
  bind runner, then the entry that \<^verbatim>\<open>pop\<close> takes from what is left of the step. Each
  part returns the error, or the step as filled so far and the map \<^verbatim>\<open>s\<close>. The part
  for the bind runner looks the value up under \<^verbatim>\<open>dumpRunnerKey\<close> and deletes
  \<^verbatim>\<open>bindRunnerKey\<close>, as the source does.
\<close>

definition newStep :: "string \<Rightarrow> bool \<Rightarrow> step" where
  "newStep k dbg =
     \<lparr>key = k, runnerKey = [], httpRunner = None, httpRequest = None, dbRunner = None,
      dbQuery = None, execRunner = False, execCommand = None, testRunner = False,
      testCond = [], dumpRunner = False, dumpCond = [], bindRunner = False, bindCond = None,
      includeRunner = False, includePath = [], step.debug = dbg\<rparr>"

definition appendTest ::
  "collaborators \<Rightarrow> operator \<Rightarrow> step \<times> (string \<times> val) list
     \<Rightarrow> error + step \<times> (string \<times> val) list" where
  "appendTest cs op x =
     (case x of (stp, s) \<Rightarrow>
      (case map_of s testRunnerKey of
         None \<Rightarrow> Inr (stp, s)
       | Some v \<Rightarrow>
           (case newTestRunner cs of
              Some err \<Rightarrow> Inl err
            | None \<Rightarrow>
                (case asString v of
                   Some vv \<Rightarrow>
                     Inr (stp\<lparr>testRunner := True, testCond := vv\<rparr>, mapDelete s testRunnerKey)
                 | None \<Rightarrow> Inl (Errorf ''invalid test condition: %v'' [AVal v])))))"

definition appendDump ::
  "collaborators \<Rightarrow> operator \<Rightarrow> step \<times> (string \<times> val) list
     \<Rightarrow> error + step \<times> (string \<times> val) list" where
  "appendDump cs op x =
     (case x of (stp, s) \<Rightarrow>
      (case map_of s dumpRunnerKey of
         None \<Rightarrow> Inr (stp, s)
       | Some v \<Rightarrow>
           (case newDumpRunner cs of
              Some err \<Rightarrow> Inl err
            | None \<Rightarrow>
                (case asString v of
                   Some vv \<Rightarrow>
                     Inr (stp\<lparr>dumpRunner := True, dumpCond := vv\<rparr>, mapDelete s dumpRunnerKey)
                 | None \<Rightarrow> Inl (Errorf ''invalid dump condition: %v'' [AVal v])))))"

text \<open>
  The loop that copies the bind conditions: every value must be a string. It
  returns \<open>None\<close> where the source returns the error.
\<close>

fun bindConds :: "(string \<times> val) list \<Rightarrow> (string \<times> string) list \<Rightarrow> (string \<times> string) list option" where
  "bindConds [] acc = Some acc"
| "bindConds ((k, vvv) # rest) acc =
     (case asString vvv of Some s \<Rightarrow> bindConds rest (mapSet acc k s) | None \<Rightarrow> None)"

definition appendBind ::
  "collaborators \<Rightarrow> operator \<Rightarrow> step \<times> (string \<times> val) list
     \<Rightarrow> error + step \<times> (string \<times> val) list" where
  "appendBind cs op x =
     (case x of (stp, s) \<Rightarrow>
      (case map_of s dumpRunnerKey of
         None \<Rightarrow> Inr (stp, s)
       | Some v \<Rightarrow>
           (case newBindRunner cs of
              Some err \<Rightarrow> Inl err
            | None \<Rightarrow>
                (case asMap v of
                   Some vv \<Rightarrow>
                     (case bindConds vv [] of
                        None \<Rightarrow> Inl (Errorf ''invalid bind condition: %v'' [AVal v])
                      | Some c \<Rightarrow>
                          Inr (stp\<lparr>bindRunner := True, bindCond := Some c\<rparr>,
                               mapDelete s bindRunnerKey))
                 | None \<Rightarrow> Inl (Errorf ''invalid bind condition: %v'' [AVal v])))))"

definition appendPrimary ::
  "collaborators \<Rightarrow> operator \<Rightarrow> step \<times> (string \<times> val) list \<Rightarrow> error + step" where
  "appendPrimary cs op x =
     (case x of (stp0, s) \<Rightarrow>
      (case pop s of
         None \<Rightarrow> Inr stp0
       | Some (k, v, rest) \<Rightarrow>
           (let stp = stp0\<lparr>runnerKey := k\<rparr> in
            if k = includeRunnerKey then
              (case newIncludeRunner cs of
                 Some err \<Rightarrow> Inl err
               | None \<Rightarrow>
                   (case asString v of
                      Some vv \<Rightarrow> Inr (stp\<lparr>includeRunner := True, includePath := vv\<rparr>)
                    | None \<Rightarrow> Inl (Errorf ''invalid include path: %v'' [AVal v])))
            else if k = execRunnerKey then
              (case newExecRunner cs of
                 Some err \<Rightarrow> Inl err
               | None \<Rightarrow>
                   (case asMap v of
                      Some vv \<Rightarrow> Inr (stp\<lparr>execRunner := True, execCommand := Some vv\<rparr>)
                    | None \<Rightarrow> Inl (Errorf ''invalid exec command: %v'' [AVal v])))
            else
              (case map_of (operator.httpRunners op) k of
                 Some h \<Rightarrow>
                   (case asMap v of
                      Some vv \<Rightarrow> Inr (stp\<lparr>httpRunner := Some h, httpRequest := Some vv\<rparr>)
                    | None \<Rightarrow> Inl (Errorf ''invalid http request: %v'' [AVal v]))
               | None \<Rightarrow>
                   (case map_of (operator.dbRunners op) k of
                      Some db \<Rightarrow>
                        (case asMap v of
                           Some vv \<Rightarrow> Inr (stp\<lparr>dbRunner := Some db, dbQuery := Some vv\<rparr>)
                         | None \<Rightarrow> Inl (Errorf ''invalid db query: %v'' [AVal v]))
                    | None \<Rightarrow> Inl (Errorf ''can not find client: %s'' [AStr k]))))))"

definition AppendStep ::
  "collaborators \<Rightarrow> operator \<Rightarrow> string \<Rightarrow> (string \<times> val) list \<Rightarrow> error + operator" where
  "AppendStep cs op k s =
     (case appendTest cs op (newStep k (operator.debug op), s) of
        Inl err \<Rightarrow> Inl err
      | Inr x1 \<Rightarrow>
          (case appendDump cs op x1 of
             Inl err \<Rightarrow> Inl err
           | Inr x2 \<Rightarrow>
               (case appendBind cs op x2 of
                  Inl err \<Rightarrow> Inl err
                | Inr x3 \<Rightarrow>
                    (case appendPrimary cs op x3 of
                       Inl err \<Rightarrow> Inl err
                     | Inr stp \<Rightarrow> Inr (op\<lparr>operator.steps := operator.steps op @ [stp]\<rparr>)))))"

text \<open>
  \<^verbatim>\<open>New\<close>. The options are applied to the new book in order; \<open>newOperator\<close> is the
  rest of \<^verbatim>\<open>New\<close>, from the book that the options have filled. The loop over
  \<^verbatim>\<open>bk.Runners\<close> carries the operator and the errors of the runners.
\<close>

fun applyOptions :: "(book \<Rightarrow> error + book) list \<Rightarrow> book \<Rightarrow> error + book" where
  "applyOptions [] bk = Inr bk"
| "applyOptions (opt # opts) bk =
     (case opt bk of Inl err \<Rightarrow> Inl err | Inr bk' \<Rightarrow> applyOptions opts bk')"

definition reservedRunnerName :: "string \<Rightarrow> bool" where
  "reservedRunnerName k =
     (k = includeRunnerKey \<or> k = testRunnerKey \<or> k = dumpRunnerKey \<or> k = execRunnerKey \<or>
      k = bindRunnerKey \<or> k = ifSectionKey \<or> k = descSectionKey)"

definition configuredRunner ::
  "collaborators \<Rightarrow> string \<Rightarrow> val \<Rightarrow> operator \<times> (string \<times> error) list
     \<Rightarrow> operator \<times> (string \<times> error) list" where
  "configuredRunner cs k v x =
     (case x of (op, errs) \<Rightarrow>
      (case asString v of
         Some vv \<Rightarrow>
           (if hasPrefix vv ''https://'' \<or> hasPrefix vv ''http://'' then
              (case newHTTPRunner cs k vv of
                 Inl err \<Rightarrow> (op, mapSet errs k err)
               | Inr hc \<Rightarrow> (op\<lparr>operator.httpRunners := mapSet (operator.httpRunners op) k hc\<rparr>, errs))
            else
              (case newDBRunner cs k vv of
                 Inl err \<Rightarrow> (op, mapSet errs k err)
               | Inr dc \<Rightarrow> (op\<lparr>operator.dbRunners := mapSet (operator.dbRunners op) k dc\<rparr>, errs)))
       | None \<Rightarrow>
      (case asMap v of
         Some vv \<Rightarrow>
           (case readRunnerConfig cs vv of
              Inl err \<Rightarrow> (op, mapSet errs k err)
            | Inr c0 \<Rightarrow>
                (let loc = OpenApi3DocLocation c0;
                     c = (if loc \<noteq> [] \<and> \<not> hasPrefix loc ''https://'' \<and>
                             \<not> hasPrefix loc ''http://'' \<and> \<not> hasPrefix loc ''/''
                          then c0\<lparr>OpenApi3DocLocation := filepathJoin cs (root op) loc\<rparr>
                          else c0)
                 in if Endpoint c \<noteq> [] then
                      (case newHTTPRunner cs k (Endpoint c) of
                         Inl err \<Rightarrow> (op, mapSet errs k err)
                       | Inr hc \<Rightarrow>
                           (case NewHttpValidator cs c of
                              Some err \<Rightarrow> (op, mapSet errs k err)
                            | None \<Rightarrow>
                                (op\<lparr>operator.httpRunners :=
                                      mapSet (operator.httpRunners op) k (hc\<lparr>validator := Some c\<rparr>)\<rparr>,
                                 errs)))
                    else (op, errs)))
       | None \<Rightarrow> (op, errs))))"

fun configureRunners ::
  "collaborators \<Rightarrow> (string \<times> val) list \<Rightarrow> operator \<times> (string \<times> error) list
     \<Rightarrow> error + operator \<times> (string \<times> error) list" where
  "configureRunners cs [] x = Inr x"
| "configureRunners cs ((k, v) # rest) x =
     (if reservedRunnerName k
      then Inl (Errorf ''runner name '%s' is reserved for built-in runner'' [AStr k])
      else configureRunners cs rest (configuredRunner cs k v (fst x, mapDelete (snd x) k)))"

definition givenRunners :: "book \<Rightarrow> operator \<times> (string \<times> error) list \<Rightarrow> operator \<times> (string \<times> error) list" where
  "givenRunners bk x =
     (let x1 = foldl (\<lambda>y kv. ((fst y)\<lparr>operator.httpRunners :=
                           mapSet (operator.httpRunners (fst y)) (fst kv) (snd kv)\<rparr>,
                         mapDelete (snd y) (fst kv))) x (book.httpRunners bk)
      in foldl (\<lambda>y kv. ((fst y)\<lparr>operator.dbRunners :=
                           mapSet (operator.dbRunners (fst y)) (fst kv) (snd kv)\<rparr>,
                         mapDelete (snd y) (fst kv))) x1 (book.dbRunners bk))"

definition duplicateRunner :: "operator \<Rightarrow> string option" where
  "duplicateRunner op =
     (case filter (\<lambda>k. k \<in> set (map fst (operator.httpRunners op))) (map fst (operator.dbRunners op)) of
        [] \<Rightarrow> None
      | k # _ \<Rightarrow> Some k)"

text \<open>The loop over \<^verbatim>\<open>bk.Steps\<close>; \<open>i\<close> is the index of the first step of the list.\<close>

fun appendSteps ::
  "collaborators \<Rightarrow> book \<Rightarrow> nat \<Rightarrow> (string \<times> val) list list \<Rightarrow> operator \<Rightarrow> error + operator" where
  "appendSteps cs bk i [] op = Inr op"
| "appendSteps cs bk i (s # rest) op =
     (case validateStepKeys s of
        Some err \<Rightarrow> Inl (Errorf ''invalid steps[%d]. %w: %s'' [ANat i, AErr err, AVal (VMap s)])
      | None \<Rightarrow>
          (let k = (if length (stepKeys bk) = length (Steps bk) then stepKeys bk ! i else [])
           in case AppendStep cs op k s of
                Inl err \<Rightarrow> Inl err
              | Inr op' \<Rightarrow> appendSteps cs bk (Suc i) rest op'))"

definition newOperator :: "collaborators \<Rightarrow> book \<Rightarrow> error + operator" where
  "newOperator cs bk =
     (let um = (length (stepKeys bk) = length (Steps bk));
          op0 = \<lparr>operator.httpRunners = [], operator.dbRunners = [], operator.steps = [],
                 store = \<lparr>store.steps = [], stepMaps = [], vars = Vars bk, bindVars = [],
                          store.useMaps = um\<rparr>,
                 desc = Desc bk, operator.useMaps = um, operator.debug = Debug bk,
                 root = [], operator.failFast = book.failFast bk,
                 operator.included = book.included bk, cond = IfCond bk, skipped = False,
                 capturers = []\<rparr>
      in case (if path bk \<noteq> [] then Inr (filepathDir cs (path bk)) else getwd cs) of
           Inl err \<Rightarrow> Inl err
         | Inr rt \<Rightarrow>
             (case configureRunners cs (Runners bk) (op0\<lparr>root := rt\<rparr>, runnerErrs bk) of
                Inl err \<Rightarrow> Inl err
              | Inr x \<Rightarrow>
                  (case givenRunners bk x of
                     (op1, errs) \<Rightarrow>
                       (case duplicateRunner op1 of
                          Some k \<Rightarrow> Inl (Errorf ''duplicate runner names: %s'' [AStr k])
                        | None \<Rightarrow>
                            if errs \<noteq> []
                            then Inl (MultiError
                                   (map (\<lambda>ke. Errorf ''runner %s error: %w''
                                                [AStr (fst ke), AErr (snd ke)]) errs))
                            else appendSteps cs bk 0 (Steps bk) op1))))"

definition New :: "collaborators \<Rightarrow> (book \<Rightarrow> error + book) list \<Rightarrow> error + operator" where
  "New cs opts =
     (case applyOptions opts (newBook cs) of
        Inl err \<Rightarrow> Inl err
      | Inr bk \<Rightarrow> newOperator cs bk)"

text \<open>\<^verbatim>\<open>operator.stepName\<close>.\<close>

definition stepName :: "operator \<Rightarrow> nat \<Rightarrow> string" where
  "stepName op i =
     (if operator.useMaps op
      then [squote] @ desc op @ [squote] @ ''.steps.'' @ key (operator.steps op ! i)
      else [squote] @ desc op @ [squote] @ ''.steps['' @ showNat i @ '']'')"

section \<open>Expanding placeholders\<close>

text \<open>
  \<^verbatim>\<open>numberRe\<close>, the regular expression \<^verbatim>\<open>^[+-]?\d+(?:\.\d+)?$\<close>: an optional sign, at
  least one digit and, optionally, a point followed by at least one digit.
\<close>

definition numberRe :: "string \<Rightarrow> bool" where
  "numberRe v =
     (let u = (if v \<noteq> [] \<and> (hd v = CHR ''+'' \<or> hd v = CHR ''-'') then tl v else v);
          ip = takeWhile isDigit u;
          rest = dropWhile isDigit u
      in ip \<noteq> [] \<and>
         (rest = [] \<or> (hd rest = CHR ''.'' \<and> tl rest \<noteq> [] \<and> list_all isDigit (tl rest))))"

text \<open>
  \<^verbatim>\<open>strings.NewReplacer(oldnew...).Replace\<close>: at each position, from left to right, the
  first pair in the order of the arguments whose old string starts there is
  replaced, and the scan goes on behind it. The old strings here are matches of
  \<^verbatim>\<open>expandRe\<close> and never empty; a pair with an empty old string is passed over.
\<close>

fun lookupOld :: "(string \<times> string) list \<Rightarrow> string \<Rightarrow> (string \<times> string) option" where
  "lookupOld [] s = None"
| "lookupOld ((old, new) # rest) s =
     (if old \<noteq> [] \<and> hasPrefix s old then Some (old, new) else lookupOld rest s)"

lemma lookupOld_nonempty: "lookupOld pairs s = Some (old, new) \<Longrightarrow> old \<noteq> []"
  by (induction pairs) (auto split: if_splits)

function replace :: "(string \<times> string) list \<Rightarrow> string \<Rightarrow> string" where
  "replace pairs [] = []"
| "replace pairs (c # cs) =
     (case lookupOld pairs (c # cs) of
        Some (old, new) \<Rightarrow> new @ replace pairs (drop (length old) (c # cs))
      | None \<Rightarrow> c # replace pairs cs)"
  by pat_completeness auto
termination
proof (relation "measure (\<lambda>(pairs, s). length s)")
  show "wf (measure (\<lambda>(pairs, s). length s))" by simp
next
  fix pairs :: "(string \<times> string) list" and c :: char and cs :: string
    and x2 :: "string \<times> string" and old new :: string
  assume "lookupOld pairs (c # cs) = Some x2" and "(old, new) = x2"
  then have "old \<noteq> []" using lookupOld_nonempty by metis
  then show "((pairs, drop (length old) (c # cs)), (pairs, c # cs)) \<in> measure (\<lambda>(pairs, s). length s)"
    by (cases old) simp_all
next
  fix pairs :: "(string \<times> string) list" and c :: char and cs :: string
  show "((pairs, cs), (pairs, c # cs)) \<in> measure (\<lambda>(pairs, s). length s)" by simp
qed

text \<open>
  The packages that \<^verbatim>\<open>expand\<close> calls. \<^verbatim>\<open>expand.ReplaceYAML\<close> hands pieces of the
  document to the function it is given and builds a document from what the
  function returns: \<open>yamlFragments\<close> are the pieces in the order of the calls and
  \<open>yamlAssemble\<close> builds the result. \<open>findAllSubmatch\<close> is
  \<^verbatim>\<open>expandRe.FindAllStringSubmatch\<close>, each match with its text \<^verbatim>\<open>m[0]\<close> and its
  expression \<^verbatim>\<open>m[1]\<close>; \<open>exprEval\<close> is \<^verbatim>\<open>expr.Eval\<close>.
\<close>

record expandLib =
  yamlMarshal :: "val \<Rightarrow> error + string"
  yamlUnmarshal :: "string \<Rightarrow> error + val"
  yamlFragments :: "string \<Rightarrow> string list"
  yamlAssemble :: "string \<Rightarrow> string list \<Rightarrow> string"
  findAllSubmatch :: "string \<Rightarrow> (string \<times> string) list"
  exprEval :: "string \<Rightarrow> (string \<times> val) list \<Rightarrow> error + val"

text \<open>
  The body of the loop over the matches in \<^verbatim>\<open>replacefunc\<close>: the pair to append to
  \<^verbatim>\<open>oldnew\<close> and the new value of \<^verbatim>\<open>reperr\<close>. \<open>b\<close> is the marshalled document. When the
  evaluation fails its result is nil.
\<close>

definition renderMatch ::
  "expandLib \<Rightarrow> (string \<times> val) list \<Rightarrow> string \<Rightarrow> string \<times> string \<Rightarrow> error option
     \<Rightarrow> (string \<times> string) \<times> error option" where
  "renderMatch lib st b m reperr =
     (case (case exprEval lib (snd m) st of
              Inl err \<Rightarrow> (VNil, Some err)
            | Inr x \<Rightarrow> (x, reperr)) of
        (ov, reperr1) \<Rightarrow>
          (case ov of
             VString v \<Rightarrow>
               ((fst m, if numberRe v then [squote] @ v @ [squote] else v), reperr1)
           | VInt64 n \<Rightarrow> ((fst m, itoa n), reperr1)
           | VInt n \<Rightarrow> ((fst m, itoa n), reperr1)
           | _ \<Rightarrow> ((fst m, []), Some (Errorf (''invalid format: %v'' @ [newline] @ ''%s'') [AVal ov, AStr b]))))"

fun renderMatches ::
  "expandLib \<Rightarrow> (string \<times> val) list \<Rightarrow> string \<Rightarrow> (string \<times> string) list
     \<Rightarrow> (string \<times> string) list \<Rightarrow> error option \<Rightarrow> (string \<times> string) list \<times> error option" where
  "renderMatches lib st b [] oldnew reperr = (oldnew, reperr)"
| "renderMatches lib st b (m # ms) oldnew reperr =
     (case renderMatch lib st b m reperr of
        (pair, reperr') \<Rightarrow> renderMatches lib st b ms (oldnew @ [pair]) reperr')"

definition replacefunc ::
  "expandLib \<Rightarrow> (string \<times> val) list \<Rightarrow> string \<Rightarrow> string \<Rightarrow> error option
     \<Rightarrow> string \<times> error option" where
  "replacefunc lib st b inp reperr =
     (if \<not> containsStr inp ''{{'' then (inp, reperr)
      else
        (case renderMatches lib st b (findAllSubmatch lib inp) [] reperr of
           (oldnew, reperr') \<Rightarrow> (replace oldnew inp, reperr')))"

fun replaceFragments ::
  "expandLib \<Rightarrow> (string \<times> val) list \<Rightarrow> string \<Rightarrow> string list \<Rightarrow> error option
     \<Rightarrow> string list \<times> error option" where
  "replaceFragments lib st b [] reperr = ([], reperr)"
| "replaceFragments lib st b (f # fs) reperr =
     (case replacefunc lib st b f reperr of
        (f', reperr1) \<Rightarrow>
          (case replaceFragments lib st b fs reperr1 of
             (fs', reperr2) \<Rightarrow> (f' # fs', reperr2)))"

text \<open>\<^verbatim>\<open>operator.expand\<close>.\<close>

definition expand :: "expandLib \<Rightarrow> operator \<Rightarrow> val \<Rightarrow> error + val" where
  "expand lib op inp =
     (let st = mapSet (toMap (store op)) ''string'' VFunc in
      (case yamlMarshal lib inp of
         Inl err \<Rightarrow> Inl err
       | Inr b \<Rightarrow>
           (case replaceFragments lib st b (yamlFragments lib b) None of
              (outs, reperr) \<Rightarrow>
                (case reperr of
                   Some err \<Rightarrow> Inl err
                 | None \<Rightarrow> yamlUnmarshal lib (yamlAssemble lib b outs)))))"

section \<open>Running a scenario\<close>

text \<open>
  The runners whose files are not among the sources are collaborators. A runner
  reads the operator and the world \<open>'w\<close> outside it (for the database runner, the
  database), and returns its error, what it does to the operator, and the new
  world. It reaches the operator through \<^verbatim>\<open>o.record\<close> and, the bind runner, through
  the bound variables of the store: \<open>Record v\<close> and \<open>Bind k v\<close>.
\<close>

datatype action = Record val | Bind string val

fun applyActions :: "operator \<Rightarrow> action list \<Rightarrow> error option \<times> operator" where
  "applyActions op [] = (None, op)"
| "applyActions op (Record v # as) =
     (case record_val op v of
        Inl p \<Rightarrow> (Some p, op)
      | Inr op' \<Rightarrow> applyActions op' as)"
| "applyActions op (Bind k v # as) =
     applyActions (op\<lparr>store := (store op)\<lparr>bindVars := mapSet (bindVars (store op)) k v\<rparr>\<rparr>) as"

type_synonym 'w runnerCall = "operator \<Rightarrow> 'w \<Rightarrow> error option \<times> action list \<times> 'w"

record 'w runners =
  parseHTTPRequest :: "(string \<times> val) list \<Rightarrow> error + val"
  httpRun :: "httpRunner \<Rightarrow> val \<Rightarrow> 'w runnerCall"
  parseDBQuery :: "(string \<times> val) list \<Rightarrow> error + dbQuery"
  dbDriver :: "'w driver"
  dbParsers :: parsers
  parseExecCommand :: "(string \<times> val) list \<Rightarrow> error + val"
  execRun :: "val \<Rightarrow> 'w runnerCall"
  includeRun :: "string \<Rightarrow> 'w runnerCall"
  testRun :: "string \<Rightarrow> 'w runnerCall"
  dumpRun :: "string \<Rightarrow> 'w runnerCall"
  bindRun :: "(string \<times> string) list \<Rightarrow> 'w runnerCall"
  evalCond :: "string \<Rightarrow> (string \<times> val) list \<Rightarrow> error + val"
  expandLibrary :: expandLib

text \<open>
  A panic is no error value: no \<^verbatim>\<open>if err != nil\<close> sees it and it ends the run as it
  is. \<open>failedOn\<close> is \<^verbatim>\<open>fmt.Errorf("... failed on %s: %v", o.stepName(i), err)\<close> around the
  error a runner returns.
\<close>

definition isPanic :: "error \<Rightarrow> bool" where
  "isPanic e = (case e of IndexOutOfRange i n \<Rightarrow> True | TypeAssertionFailed v \<Rightarrow> True | _ \<Rightarrow> False)"

definition failedOn :: "string \<Rightarrow> operator \<Rightarrow> nat \<Rightarrow> error \<Rightarrow> error" where
  "failedOn what op i e =
     (if isPanic e then e else Errorf (what @ '' failed on %s: %v'') [AStr (stepName op i), AErr e])"

definition callRunner ::
  "'w runnerCall \<Rightarrow> operator \<times> 'w \<Rightarrow> error option \<times> operator \<times> 'w" where
  "callRunner f s =
     (case f (fst s) (snd s) of
        (err, acts, w') \<Rightarrow>
          (case applyActions (fst s) acts of
             (Some p, op') \<Rightarrow> (Some p, op', w')
           | (None, op') \<Rightarrow> (err, op', w')))"

text \<open>
  The \<^verbatim>\<open>switch\<close> of \<^verbatim>\<open>operator.run\<close> that runs the primary runner of step \<open>i\<close>.
\<close>

definition runPrimary ::
  "'w runners \<Rightarrow> nat \<Rightarrow> step \<Rightarrow> operator \<times> 'w \<Rightarrow> error option \<times> operator \<times> 'w" where
  "runPrimary rs i stp s =
     (case s of (op, w) \<Rightarrow>
      (case (httpRunner stp, httpRequest stp) of
         (Some h, Some request) \<Rightarrow>
           (case expand (expandLibrary rs) op (VMap request) of
              Inl err \<Rightarrow> (Some err, s)
            | Inr e \<Rightarrow>
                (case asMap e of
                   Some r \<Rightarrow>
                     (case parseHTTPRequest rs r of
                        Inl err \<Rightarrow> (Some err, s)
                      | Inr req \<Rightarrow>
                          (case callRunner (httpRun rs h req) s of
                             (Some err, op', w') \<Rightarrow> (Some (failedOn ''http request'' op' i err), op', w')
                           | (None, s') \<Rightarrow> (None, s')))
                 | None \<Rightarrow> (Some (Errorf ''invalid %s: %v'' [AStr (stepName op i), AVal e]), s)))
       | _ \<Rightarrow>
      (case (dbRunner stp, dbQuery stp) of
         (Some db, Some query) \<Rightarrow>
           (case expand (expandLibrary rs) op (VMap query) of
              Inl err \<Rightarrow> (Some err, s)
            | Inr e \<Rightarrow>
                (case asMap e of
                   Some q \<Rightarrow>
                     (case parseDBQuery rs q of
                        Inl err \<Rightarrow>
                          (Some (Errorf ''invalid %s: %v'' [AStr (stepName op i), AVal (VMap q)]), s)
                      | Inr query' \<Rightarrow>
                          (case Run (dbDriver rs) (dbParsers rs) db query' s of
                             (Some err, op', w') \<Rightarrow> (Some (failedOn ''db query'' op' i err), op', w')
                           | (None, s') \<Rightarrow> (None, s')))
                 | None \<Rightarrow> (Some (Errorf ''invalid %s: %v'' [AStr (stepName op i), AVal e]), s)))
       | _ \<Rightarrow>
      (case (execRunner stp, execCommand stp) of
         (True, Some command) \<Rightarrow>
           (case expand (expandLibrary rs) op (VMap command) of
              Inl err \<Rightarrow> (Some err, s)
            | Inr e \<Rightarrow>
                (case asMap e of
                   Some cmd \<Rightarrow>
                     (case parseExecCommand rs cmd of
                        Inl err \<Rightarrow>
                          (Some (Errorf ''invalid %s: %v'' [AStr (stepName op i), AVal (VMap cmd)]), s)
                      | Inr command' \<Rightarrow>
                          (case callRunner (execRun rs command') s of
                             (Some err, op', w') \<Rightarrow> (Some (failedOn ''exec command'' op' i err), op', w')
                           | (None, s') \<Rightarrow> (None, s')))
                 | None \<Rightarrow> (Some (Errorf ''invalid %s: %v'' [AStr (stepName op i), AVal e]), s)))
       | _ \<Rightarrow>
      (if includeRunner stp \<and> includePath stp \<noteq> [] then
         (case callRunner (includeRun rs (includePath stp)) s of
            (Some err, op', w') \<Rightarrow> (Some (failedOn ''include'' op' i err), op', w')
          | (None, s') \<Rightarrow> (None, s'))
       else (None, s))))))"

text \<open>
  One side runner of step \<open>i\<close> of \<^verbatim>\<open>operator.run\<close>: the runner, then \<^verbatim>\<open>o.record(nil)\<close>
  when \<^verbatim>\<open>len(o.store.steps) < i+1\<close>.
\<close>

definition runSide ::
  "string \<Rightarrow> 'w runnerCall \<Rightarrow> nat \<Rightarrow> operator \<times> 'w \<Rightarrow> error option \<times> operator \<times> 'w" where
  "runSide what f i s =
     (case callRunner f s of
        (Some err, op', w') \<Rightarrow> (Some (failedOn what op' i err), op', w')
      | (None, op', w') \<Rightarrow>
          (if length (store.steps (store op')) < i + 1 then
             (case record_val op' VNil of
                Inl p \<Rightarrow> (Some p, op', w')
              | Inr op'' \<Rightarrow> (None, op'', w'))
           else (None, op', w')))"

definition runStep ::
  "'w runners \<Rightarrow> nat \<Rightarrow> step \<Rightarrow> operator \<times> 'w \<Rightarrow> error option \<times> operator \<times> 'w" where
  "runStep rs i stp s =
     (case runPrimary rs i stp s of
        (Some err, s1) \<Rightarrow> (Some err, s1)
      | (None, s1) \<Rightarrow>
          (case (if testRunner stp \<and> testCond stp \<noteq> []
                 then runSide ''test'' (testRun rs (testCond stp)) i s1 else (None, s1)) of
             (Some err, s2) \<Rightarrow> (Some err, s2)
           | (None, s2) \<Rightarrow>
               (case (if dumpRunner stp \<and> dumpCond stp \<noteq> []
                      then runSide ''dump'' (dumpRun rs (dumpCond stp)) i s2 else (None, s2)) of
                  (Some err, s3) \<Rightarrow> (Some err, s3)
                | (None, s3) \<Rightarrow>
                    (case (bindRunner stp, bindCond stp) of
                       (True, Some c) \<Rightarrow> runSide ''bind'' (bindRun rs c) i s3
                     | _ \<Rightarrow> (None, s3)))))"

fun runSteps ::
  "'w runners \<Rightarrow> nat \<Rightarrow> step list \<Rightarrow> operator \<times> 'w \<Rightarrow> error option \<times> operator \<times> 'w" where
  "runSteps rs i [] s = (None, s)"
| "runSteps rs i (stp # rest) s =
     (case runStep rs i stp s of
        (Some err, s') \<Rightarrow> (Some err, s')
      | (None, s') \<Rightarrow> runSteps rs (Suc i) rest s')"

text \<open>
  \<^verbatim>\<open>operator.run\<close>, and \<^verbatim>\<open>operator.Run\<close>, which returns what \<^verbatim>\<open>run\<close> returns (under a test
  handle it also reports the error to the handle).
\<close>

definition run :: "'w runners \<Rightarrow> operator \<times> 'w \<Rightarrow> error option \<times> operator \<times> 'w" where
  "run rs s =
     (case s of (op, w) \<Rightarrow>
      (if cond op \<noteq> [] then
         (case evalCond rs (''('' @ cond op @ '') == true'')
                 (mapSet (toMap (store op)) ''included'' (VBool (operator.included op))) of
            Inl err \<Rightarrow> (Some err, s)
          | Inr tf \<Rightarrow>
              (case asBool tf of
                 Some b \<Rightarrow>
                   (if \<not> b then (None, op\<lparr>skipped := True\<rparr>, w)
                    else runSteps rs 0 (operator.steps op) s)
               | None \<Rightarrow> (Some (TypeAssertionFailed tf), s)))
       else runSteps rs 0 (operator.steps op) s))"

definition operatorRun :: "'w runners \<Rightarrow> operator \<times> 'w \<Rightarrow> error option \<times> operator \<times> 'w" where
  "operatorRun rs s = run rs s"

text \<open>
  \<^verbatim>\<open>operators.RunN\<close>: the error, the operators after the batch, and the world. An
  error that \<^verbatim>\<open>o.Run\<close> returns ends the batch when \<^verbatim>\<open>o.failFast\<close> is set. A panic in
  \<^verbatim>\<open>o.Run\<close> is not returned: it unwinds \<^verbatim>\<open>RunN\<close> whatever \<^verbatim>\<open>o.failFast\<close> says, and no
  later scenario runs.
\<close>

fun RunN :: "'w runners \<Rightarrow> operator list \<Rightarrow> 'w \<Rightarrow> error option \<times> operator list \<times> 'w" where
  "RunN rs [] w = (None, [], w)"
| "RunN rs (op # ops) w =
     (case operatorRun rs (op, w) of
        (err, op', w') \<Rightarrow>
          (if (case err of Some e \<Rightarrow> isPanic e \<or> operator.failFast op' | None \<Rightarrow> False)
           then (err, op' # ops, w')
           else
             (case RunN rs ops w' of
                (r, ops', w'') \<Rightarrow> (r, op' # ops', w''))))"

section \<open>Notions of the specification\<close>

subsection \<open>Quoted literals\<close>

text \<open>
  Where a character of a script stands, as a reader of SQL sees it: outside every
  literal, inside a literal that a single quote opened, or inside one that a double
  quote opened. A literal ends at the next quote of its own kind; a quote of the
  other kind inside it is an ordinary character. \<open>quoteStateAt script i\<close> is the state
  in which the character at index \<open>i\<close> is read.
\<close>

datatype quoteState = Outside | InSingle | InDouble

fun quoteStep :: "quoteState \<Rightarrow> char \<Rightarrow> quoteState" where
  "quoteStep Outside c =
     (if c = squote then InSingle else if c = dquote then InDouble else Outside)"
| "quoteStep InSingle c = (if c = squote then Outside else InSingle)"
| "quoteStep InDouble c = (if c = dquote then Outside else InDouble)"

definition quoteStateAt :: "string \<Rightarrow> nat \<Rightarrow> quoteState" where
  "quoteStateAt script i = foldl quoteStep Outside (take i script)"

definition outsideSemicolon :: "string \<Rightarrow> nat \<Rightarrow> bool" where
  "outsideSemicolon script i =
     (i < length script \<and> script ! i = semicolon \<and> quoteStateAt script i = Outside)"

text \<open>
  A script quotes plainly when no literal contains a quote character of the other
  kind.
\<close>

fun plainFrom :: "quoteState \<Rightarrow> string \<Rightarrow> bool" where
  "plainFrom q [] = True"
| "plainFrom q (c # cs) =
     (\<not> (q = InSingle \<and> c = dquote) \<and> \<not> (q = InDouble \<and> c = squote) \<and>
      plainFrom (quoteStep q c) cs)"

definition plainQuoting :: "string \<Rightarrow> bool" where
  "plainQuoting script = plainFrom Outside script"

text \<open>
  Cutting a script after every index that \<open>isCut\<close> marks: the pieces, each ending with
  its marked character, and the rest after the last cut. \<open>cutStatements\<close> are the
  statements this gives: a script without a semicolon as it is, otherwise the
  pieces trimmed of blanks and newlines, and the rest trimmed on the right unless
  nothing of it remains.
\<close>

fun cutScript :: "(nat \<Rightarrow> bool) \<Rightarrow> nat \<Rightarrow> string \<Rightarrow> string \<Rightarrow> string list \<times> string" where
  "cutScript isCut i [] cur = ([], cur)"
| "cutScript isCut i (c # cs) cur =
     (if isCut i
      then (case cutScript isCut (Suc i) cs [] of (ps, r) \<Rightarrow> ((cur @ [c]) # ps, r))
      else cutScript isCut (Suc i) cs (cur @ [c]))"

definition cutStatements :: "(nat \<Rightarrow> bool) \<Rightarrow> string \<Rightarrow> string list" where
  "cutStatements isCut script =
     (if \<not> containsStr script [semicolon] then [script]
      else
        (case cutScript isCut 0 script [] of
           (ps, r) \<Rightarrow>
             map (\<lambda>p. trimBoth p [CHR '' '', newline]) ps @
             (if trimRight r trailingCutset = [] then [] else [trimRight r trailingCutset])))"

text \<open>
  Two scripts: \<^verbatim>\<open>INSERT INTO t VALUES ('a;b');\<close> and
  \<^verbatim>\<open>SELECT '"', ";" FROM t\<close>. In the second the semicolon is at index 13.
\<close>

definition insertExample :: string where
  "insertExample = ''INSERT INTO t VALUES ('' @ [squote] @ ''a;b'' @ [squote] @ '');''"

definition nestedQuoteExample :: string where
  "nestedQuoteExample =
     ''SELECT '' @ [squote, dquote, squote] @ '', '' @ [dquote, semicolon, dquote] @ '' FROM t''"

subsection \<open>What a run of the database runner may change\<close>

text \<open>
  \<open>onlyCaptures op op'\<close>: the operator \<open>op'\<close> is \<open>op\<close> but for what its capturers
  were told. \<open>recordedStore op v\<close> is the store of \<open>op\<close> with the one result \<open>v\<close>
  added: appended to the list of step results, or, in named mode, put under the key
  of the step whose turn it is.
\<close>

definition onlyCaptures :: "operator \<Rightarrow> operator \<Rightarrow> bool" where
  "onlyCaptures op op' = (op' = op\<lparr>capturers := capturers op'\<rparr>)"


subsection \<open>A driver and parsers to run examples on\<close>

text \<open>
  A database is the list of the statements committed and the list of those executed
  in the open transaction. A statement that starts with \<^verbatim>\<open>FAIL\<close> fails; every other
  statement that is no \<^verbatim>\<open>SELECT\<close> is executed. \<^verbatim>\<open>SELECT 1;\<close> and \<^verbatim>\<open>SELECT 2;\<close> return
  one row with one column, which the driver delivers as an \<^verbatim>\<open>int64\<close>.
\<close>

definition mockRows :: "string \<Rightarrow> int \<Rightarrow> rowsResult" where
  "mockRows c n =
     \<lparr>columns = Inr [c], columnTypes = Inr [''INTEGER''], scans = [Inr [VInt64 n]],
      rowsErr = None\<rparr>"

definition mockDriver :: "(string list \<times> string list) driver" where
  "mockDriver =
     \<lparr>beginTx = (\<lambda>db. (None, (fst db, []))),
      execContext = (\<lambda>st db.
        if hasPrefix st ''FAIL'' then (Inl (External ''constraint failed''), db)
        else (Inr \<lparr>lastInsertId = (int (length (fst db @ snd db)) + 1, None),
                   rowsAffected = (1, None)\<rparr>,
              (fst db, snd db @ [st]))),
      queryContext = (\<lambda>st db.
        if st = ''SELECT 1;'' then (Inr (mockRows ''1'' 1), db)
        else if st = ''SELECT 2;'' then (Inr (mockRows ''2'' 2), db)
        else (Inl (External ''no such table''), db)),
      rollback = (\<lambda>db. (None, (fst db, []))),
      commit = (\<lambda>db. (None, (fst db @ snd db, [])))\<rparr>"

definition mockParsers :: parsers where
  "mockParsers =
     \<lparr>parseFloat = (\<lambda>s. if s = ''3.14'' then Inr 0x40091EB851EB851F else Inl (External ''invalid syntax'')),
      parseStrict = (\<lambda>s. Inl (External ''unknown format'')),
      jsonUnmarshal = (\<lambda>s. if s = ''{}'' then Inr [] else Inl (External ''invalid character''))\<rparr>"

definition emptyStore :: store where
  "emptyStore = \<lparr>store.steps = [], stepMaps = [], vars = [], bindVars = [], store.useMaps = True\<rparr>"

definition emptyOperator :: operator where
  "emptyOperator =
     \<lparr>httpRunners = [], dbRunners = [], operator.steps = [], store = emptyStore, desc = [],
      operator.useMaps = True, operator.debug = False, root = [], failFast = False,
      included = False, cond = [], skipped = False, capturers = []\<rparr>"

definition mockRunner :: dbRunner where
  "mockRunner = \<lparr>dbRunner.name = ''db''\<rparr>"


definition failingScript :: dbQuery where
  "failingScript = \<lparr>stmt = ''INSERT 1;FAIL;SELECT 2;''\<rparr>"

subsection \<open>Statements that are a SELECT\<close>





subsection \<open>Text that reads as an integer\<close>

text \<open>An optional sign followed by at least one decimal digit, and nothing else.\<close>

definition integerText :: "string \<Rightarrow> bool" where
  "integerText s =
     (let ds = (if s \<noteq> [] \<and> (hd s = CHR ''+'' \<or> hd s = CHR ''-'') then tl s else s)
      in ds \<noteq> [] \<and> list_all isDigit ds)"

subsection \<open>Collaborators, an operator and steps to build examples from\<close>

text \<open>
  Constructors that never fail, an operator in positional mode that knows the
  database runner \<^verbatim>\<open>db\<close>, and two step configurations with a \<^verbatim>\<open>bind\<close> key: one with
  nothing else, one with a query for \<^verbatim>\<open>db\<close>.
\<close>

definition emptyBook :: book where
  "emptyBook =
     \<lparr>Desc = [], Runners = [], Vars = [], Steps = [], Debug = False, IfCond = [], stepKeys = [],
      path = [], book.httpRunners = [], book.dbRunners = [], book.failFast = False,
      book.included = False, runnerErrs = []\<rparr>"

definition plainCollaborators :: collaborators where
  "plainCollaborators =
     \<lparr>newBook = emptyBook, getwd = Inr ''/work'', filepathDir = (\<lambda>p. p),
      filepathJoin = (\<lambda>a b. a @ ''/'' @ b),
      newHTTPRunner = (\<lambda>k e. Inr \<lparr>httpRunner.name = k, endpoint = e, validator = None\<rparr>),
      newDBRunner = (\<lambda>k dsn. Inr \<lparr>dbRunner.name = k\<rparr>),
      readRunnerConfig = (\<lambda>m. Inr \<lparr>Endpoint = [], OpenApi3DocLocation = []\<rparr>),
      NewHttpValidator = (\<lambda>c. None),
      newTestRunner = None, newDumpRunner = None, newBindRunner = None,
      newIncludeRunner = None, newExecRunner = None\<rparr>"

definition dbOperator :: operator where
  "dbOperator = emptyOperator\<lparr>operator.dbRunners := [(''db'', mockRunner)], operator.useMaps := False\<rparr>"

definition bindOnlyStep :: "(string \<times> val) list" where
  "bindOnlyStep = [(''bind'', VMap [(''user'', VString ''steps[0].rows[0]'')])]"

definition queryAndBindStep :: "(string \<times> val) list" where
  "queryAndBindStep =
     [(''db'', VMap [(''query'', VString ''SELECT 1'')]),
      (''bind'', VMap [(''user'', VString ''steps[0].rows[0]'')])]"

subsection \<open>Text that looks numeric, and a library to expand examples with\<close>


definition queryPayload :: val where
  "queryPayload = VMap [(''query'', VString ''SELECT 1;'')]"

definition toyLib :: expandLib where
  "toyLib =
     \<lparr>yamlMarshal = (\<lambda>v. case asString v of
                             Some s \<Rightarrow> Inr s
                           | None \<Rightarrow> if v = queryPayload then Inr ''query: SELECT 1;''
                                     else Inl (External ''unsupported'')),
      yamlUnmarshal = (\<lambda>s. if s = ''query: SELECT 1;'' then Inr queryPayload else Inr (VString s)),
      yamlFragments = (\<lambda>b. [b]),
      yamlAssemble = (\<lambda>b outs. concat outs),
      findAllSubmatch = (\<lambda>f. if f = ''{{ vars.id }}'' then [(f, ''vars.id '')] else []),
      exprEval = (\<lambda>e st. if e = ''vars.id '' then Inr (VString ''123'')
                          else Inl (External ''unknown name''))\<rparr>"

subsection \<open>What a run may change, and running a batch to its end\<close>

text \<open>
  \<open>sameConfig op op'\<close>: the operator \<open>op'\<close> is \<open>op\<close> but for its store, what its capturers
  were told, and whether it was skipped. \<open>runAll\<close> runs every operator of a batch in
  order, whatever the errors, and gives the error and the operator of each run and
  the world after the last.
\<close>

definition sameConfig :: "operator \<Rightarrow> operator \<Rightarrow> bool" where
  "sameConfig op op' =
     (op' = op\<lparr>store := store op', capturers := capturers op', skipped := skipped op'\<rparr>)"

fun runAll :: "'w runners \<Rightarrow> operator list \<Rightarrow> 'w \<Rightarrow> (error option \<times> operator) list \<times> 'w" where
  "runAll rs [] w = ([], w)"
| "runAll rs (op # ops) w =
     (case operatorRun rs (op, w) of
        (err, op', w') \<Rightarrow>
          (case runAll rs ops w' of (rest, w'') \<Rightarrow> ((err, op') # rest, w'')))"

subsection \<open>Runners that record nothing\<close>

text \<open>
  A runner is quiet when it never calls \<^verbatim>\<open>o.record\<close>. \<open>sideRunners stp\<close>: the step runs
  a test, a dump or a bind runner.
\<close>

definition quiet :: "action list \<Rightarrow> bool" where
  "quiet acts = list_all (\<lambda>a. case a of Record v \<Rightarrow> False | Bind k v \<Rightarrow> True) acts"

definition quietRunner :: "'w runnerCall \<Rightarrow> bool" where
  "quietRunner f = (\<forall>op w. quiet (fst (snd (f op w))))"

definition sideRunners :: "step \<Rightarrow> bool" where
  "sideRunners stp =
     ((testRunner stp \<and> testCond stp \<noteq> []) \<or> (dumpRunner stp \<and> dumpCond stp \<noteq> []) \<or>
      (bindRunner stp \<and> bindCond stp \<noteq> None))"

subsection \<open>Runners and scenarios to run examples on\<close>

text \<open>
  The test runner fails on the condition \<^verbatim>\<open>false\<close> and records nothing; the dump
  runner records nothing; the database runner is the runner of the sources on the
  driver of the examples. \<open>scenario named stps\<close> is an operator with the description
  \<^verbatim>\<open>login\<close> and the steps \<open>stps\<close>, in named or in positional mode.
\<close>

definition mockRunners :: "(string list \<times> string list) runners" where
  "mockRunners =
     \<lparr>parseHTTPRequest = (\<lambda>r. Inr (VMap r)),
      httpRun = (\<lambda>h req op w. (None, [Record (VMap [(''res'', req)])], w)),
      parseDBQuery = (\<lambda>q. case map_of q ''query'' of
                           Some v \<Rightarrow> (case asString v of
                                        Some s \<Rightarrow> Inr \<lparr>stmt = s\<rparr>
                                      | None \<Rightarrow> Inl (External ''invalid query''))
                         | None \<Rightarrow> Inl (External ''invalid query'')),
      dbDriver = mockDriver,
      dbParsers = mockParsers,
      parseExecCommand = (\<lambda>c. Inr (VMap c)),
      execRun = (\<lambda>c op w. (None, [Record (VMap [(''stdout'', VString [])])], w)),
      includeRun = (\<lambda>p op w. (None, [Record VNil], w)),
      testRun = (\<lambda>c op w. if c = ''false'' then (Some (External ''condition is not true''), [], w)
                          else (None, [], w)),
      dumpRun = (\<lambda>c op w. (None, [], w)),
      bindRun = (\<lambda>c op w. (None, map (\<lambda>kv. Bind (fst kv) (VString (snd kv))) c, w)),
      evalCond = (\<lambda>c st. Inr (VBool True)),
      expandLibrary = toyLib\<rparr>"

definition testStep :: "string \<Rightarrow> string \<Rightarrow> step" where
  "testStep k c = (newStep k False)\<lparr>testRunner := True, testCond := c\<rparr>"

definition testDumpStep :: "string \<Rightarrow> step" where
  "testDumpStep k = (testStep k ''true'')\<lparr>dumpRunner := True, dumpCond := ''steps''\<rparr>"

definition queryTestStep :: "string \<Rightarrow> step" where
  "queryTestStep k =
     (testStep k ''true'')\<lparr>runnerKey := ''db'', dbRunner := Some mockRunner,
        dbQuery := Some [(''query'', VString ''SELECT 1;'')]\<rparr>"

definition scenario :: "bool \<Rightarrow> step list \<Rightarrow> operator" where
  "scenario named stps =
     emptyOperator\<lparr>operator.steps := stps, operator.useMaps := named,
       store := emptyStore\<lparr>store.useMaps := named\<rparr>, desc := ''login''\<rparr>"

definition failingScenario :: "bool \<Rightarrow> operator" where
  "failingScenario ff = (scenario False [testStep [] ''false''])\<lparr>operator.failFast := ff\<rparr>"

definition passingScenario :: operator where
  "passingScenario = scenario False [testStep [] ''true'']"

definition testFailure :: error where
  "testFailure =
     Errorf ''test failed on %s: %v''
       [AStr ([squote] @ ''login'' @ [squote] @ ''.steps[0]''), AErr (External ''condition is not true'')]"

subsection \<open>The names of the steps and the mode of the store\<close>

text \<open>
  Two operators are the same but for their runners when they differ in the two maps
  of runners at most. \<open>withMode\<close> sets the two flags of the mode, the operator's and
  the store's, and \<open>baseOp\<close> is the operator that \<^verbatim>\<open>New\<close> starts from, in positional
  mode and with its root. The outcome of a call is its error, if it returned one.
\<close>

definition sameButRunners :: "operator \<Rightarrow> operator \<Rightarrow> bool" where
  "sameButRunners op op' =
     (op' = op\<lparr>operator.httpRunners := operator.httpRunners op',
               operator.dbRunners := operator.dbRunners op'\<rparr>)"

definition withMode :: "bool \<Rightarrow> operator \<Rightarrow> operator" where
  "withMode u op = op\<lparr>operator.useMaps := u, store := (store op)\<lparr>store.useMaps := u\<rparr>\<rparr>"

definition baseOp :: "book \<Rightarrow> string \<Rightarrow> operator" where
  "baseOp bk rt =
     \<lparr>operator.httpRunners = [], operator.dbRunners = [], operator.steps = [],
      store = \<lparr>store.steps = [], stepMaps = [], vars = Vars bk, bindVars = [],
               store.useMaps = False\<rparr>,
      desc = Desc bk, operator.useMaps = False, operator.debug = Debug bk,
      root = rt, operator.failFast = book.failFast bk,
      operator.included = book.included bk, cond = IfCond bk, skipped = False,
      capturers = []\<rparr>"

definition outcome :: "error + 'a \<Rightarrow> error option" where
  "outcome r = (case r of Inl e \<Rightarrow> Some e | Inr _ \<Rightarrow> None)"

text \<open>
  Two options for the examples: \<open>renameSteps\<close> declares the names of the steps, and
  \<open>twoSteps\<close> gives a book the description \<^verbatim>\<open>login\<close> and two steps.
\<close>

definition renameSteps :: "string list \<Rightarrow> book \<Rightarrow> error + book" where
  "renameSteps ks bk = Inr (bk\<lparr>stepKeys := ks\<rparr>)"

definition twoSteps :: "book \<Rightarrow> error + book" where
  "twoSteps bk =
     Inr (bk\<lparr>Desc := ''login'',
             Steps := [[(''test'', VString ''true'')], [(''dump'', VString ''steps'')]]\<rparr>)"

section \<open>Properties of the database runner\<close>

subsection \<open>Separating statements\<close>

lemma separateLoop_plain:
  "q = foldl quoteStep Outside pre \<Longrightarrow> plainFrom q cs \<Longrightarrow>
   separateLoop cs stmts s (q = InSingle) (q = InDouble) =
     (case cutScript (outsideSemicolon (pre @ cs)) (length pre) cs s of
        (ps, r) \<Rightarrow> (stmts @ map (\<lambda>p. trimBoth p [CHR '' '', newline]) ps, r))"
proof (induction cs arbitrary: q pre stmts s)
  case Nil
  show ?case by simp
next
  case (Cons c cs)
  have q': "quoteStep q c = foldl quoteStep Outside (pre @ [c])"
    using Cons.prems(1) by simp
  have pl: "plainFrom (quoteStep q c) cs"
    using Cons.prems(2) by simp
  have ih: "separateLoop cs stmts' s' (quoteStep q c = InSingle) (quoteStep q c = InDouble) =
     (case cutScript (outsideSemicolon (pre @ c # cs)) (Suc (length pre)) cs s' of
        (ps, r) \<Rightarrow> (stmts' @ map (\<lambda>p. trimBoth p [CHR '' '', newline]) ps, r))" for stmts' s'
    using Cons.IH [OF q' pl, of stmts' s'] by simp
  have isCut: "outsideSemicolon (pre @ c # cs) (length pre) = (c = semicolon \<and> q = Outside)"
    using Cons.prems(1) by (simp add: outsideSemicolon_def quoteStateAt_def)
  consider (sq) "c = squote" | (dq) "c = dquote" | (semi) "c = semicolon"
    | (other) "c \<noteq> squote" "c \<noteq> dquote" "c \<noteq> semicolon"
    by blast
  then show ?case
  proof cases
    case sq
    with Cons.prems(2) isCut ih [of stmts "s @ [c]"] show ?thesis
      by (cases q) simp_all
  next
    case dq
    with Cons.prems(2) isCut ih [of stmts "s @ [c]"] show ?thesis
      by (cases q) simp_all
  next
    case semi
    show ?thesis
    proof (cases q)
      case Outside
      with semi isCut ih [of "stmts @ [trimBoth (s @ [c]) [CHR '' '', newline]]" "[]"]
      show ?thesis
        by (simp split: prod.splits)
    next
      case InSingle
      with semi isCut ih [of stmts "s @ [c]"] show ?thesis
        by simp
    next
      case InDouble
      with semi isCut ih [of stmts "s @ [c]"] show ?thesis
        by simp
    qed
  next
    case other
    with isCut ih [of stmts "s @ [c]"] show ?thesis
      by (cases q) simp_all
  qed
qed

text \<open>
  C4, as amended. For every script that quotes plainly, \<^verbatim>\<open>separateStmt\<close> cuts exactly
  after the semicolons that stand outside every quoted literal: the statements are
  the pieces between these semicolons, so a semicolon inside a literal never
  produces a split. (A script without a semicolon is returned as it is.)
\<close>

theorem separateStmt_outside_literals:
  "plainQuoting script \<Longrightarrow> separateStmt script = cutStatements (outsideSemicolon script) script"
proof -
  assume pq: "plainQuoting script"
  have "separateLoop script [] [] (Outside = InSingle) (Outside = InDouble) =
     (case cutScript (outsideSemicolon ([] @ script)) (length ([]::string)) script [] of
        (ps, r) \<Rightarrow> ([] @ map (\<lambda>p. trimBoth p [CHR '' '', newline]) ps, r))"
    using pq unfolding plainQuoting_def by (intro separateLoop_plain) simp_all
  then have loop: "separateLoop script [] [] False False =
     (case cutScript (outsideSemicolon script) 0 script [] of
        (ps, r) \<Rightarrow> (map (\<lambda>p. trimBoth p [CHR '' '', newline]) ps, r))"
    by simp
  show ?thesis
    unfolding separateStmt_def cutStatements_def loop
    by (auto simp: trimRight_def Let_def split: prod.splits)
qed

text \<open>
  The example of the claim: the script \<^verbatim>\<open>INSERT INTO t VALUES ('a;b');\<close> quotes
  plainly and is one statement.
\<close>

theorem separateStmt_outside_literals_witness:
  "plainQuoting insertExample \<and> separateStmt insertExample = [insertExample]"
proof -
  have pq: "plainQuoting insertExample"
    by code_simp
  have rhs: "cutStatements (outsideSemicolon insertExample) insertExample = [insertExample]"
    by code_simp
  from separateStmt_outside_literals [OF pq] rhs pq show ?thesis
    by simp
qed

text \<open>
  C4 as stated fails. In \<^verbatim>\<open>SELECT '"', ";" FROM t\<close> the only semicolon stands inside
  the double-quoted literal \<^verbatim>\<open>";"\<close>, and \<^verbatim>\<open>separateStmt\<close> splits there: the double
  quote inside the single-quoted literal has toggled \<^verbatim>\<open>ind\<close>.
\<close>

theorem separateStmt_splits_inside_literal:
  "nestedQuoteExample ! 13 = semicolon \<and>
   quoteStateAt nestedQuoteExample 13 = InDouble \<and>
   \<not> containsStr (take 13 nestedQuoteExample) [semicolon] \<and>
   \<not> containsStr (drop 14 nestedQuoteExample) [semicolon] \<and>
   separateStmt nestedQuoteExample =
     [''SELECT '' @ [squote, dquote, squote] @ '', '' @ [dquote, semicolon],
      [dquote] @ '' FROM t'']"
  by code_simp

subsection \<open>What a run records\<close>





lemma onlyCaptures_refl: "onlyCaptures op op"
  by (simp add: onlyCaptures_def)

lemma onlyCaptures_capture: "onlyCaptures op op1 \<Longrightarrow> onlyCaptures op (capture c op1)"
  by (cases op, cases op1) (auto simp: onlyCaptures_def capture_def)

lemma onlyCaptures_trans: "onlyCaptures a b \<Longrightarrow> onlyCaptures b c \<Longrightarrow> onlyCaptures a c"
  by (cases a, cases b, cases c) (auto simp: onlyCaptures_def)

lemma runStmt_onlyCaptures:
  "runStmt d ps rn st (op, tx) = (r, op', tx') \<Longrightarrow> onlyCaptures op op'"
  by (auto simp: runStmt_def Let_def onlyCaptures_refl onlyCaptures_capture
      split: if_splits prod.splits sum.splits option.splits)

lemma runStmts_onlyCaptures:
  "runStmts d ps rn sts out (op, tx) = (r, op', tx') \<Longrightarrow> onlyCaptures op op'"
proof (induction sts arbitrary: out op tx)
  case Nil
  then show ?case by (simp add: onlyCaptures_refl)
next
  case (Cons st sts)
  obtain r1 op1 tx1 where
    s: "runStmt d ps rn st (capture (CaptureDBStatement rn st) op, tx) = (r1, op1, tx1)"
    by (metis prod_cases3)
  have c1: "onlyCaptures op op1"
    using runStmt_onlyCaptures [OF s] onlyCaptures_capture [OF onlyCaptures_refl]
      onlyCaptures_trans by blast
  show ?case
  proof (cases r1)
    case (Inl e)
    with Cons.prems s c1 show ?thesis by simp
  next
    case (Inr out')
    with Cons.prems s have "runStmts d ps rn sts out' (op1, tx1) = (r, op', tx')" by simp
    from Cons.IH [OF this] c1 show ?thesis using onlyCaptures_trans by blast
  qed
qed

lemma onlyCaptures_store: "onlyCaptures op op' \<Longrightarrow> store op' = store op"
  by (cases op, cases op') (auto simp: onlyCaptures_def)


lemma runStmts_fail_at:
  "runStmts d ps rn pre out (op, tx) = (Inr out1, op1, tx1) \<Longrightarrow>
   runStmt d ps rn st (capture (CaptureDBStatement rn st) op1, tx1) = (Inl e, op2, tx2) \<Longrightarrow>
   runStmts d ps rn (pre @ st # post) out (op, tx) = (Inl e, op2, tx2)"
proof (induction pre arbitrary: out op tx)
  case Nil
  then show ?case by simp
next
  case (Cons a pre)
  then show ?case by (auto split: prod.splits sum.splits)
qed








subsection \<open>Rollback and commit\<close>

lemma Run_error_store:
  assumes "Run d ps rnr q (op, db) = (Some e, op', db')"
  shows "store op' = store op"
proof -
  obtain e0 tx where b: "beginTx d db = (e0, tx)" by (cases "beginTx d db")
  obtain r opA txA where
    l: "runStmts d ps (dbRunner.name rnr) (separateStmt (stmt q)) [] (op, tx) = (r, opA, txA)"
    by (metis prod_cases3)
  have oc: "store opA = store op"
    using runStmts_onlyCaptures [OF l] by (rule onlyCaptures_store)
  from assms b l oc show ?thesis
    by (auto simp: Run_def record_val_def Let_def
        split: option.splits prod.splits sum.splits if_splits)
qed

lemma Run_statement_error:
  assumes b: "beginTx d db = (None, tx)"
    and sp: "separateStmt (stmt q) = pre @ st # post"
    and pre: "runStmts d ps (dbRunner.name rnr) pre [] (op, tx) = (Inr out1, op1, tx1)"
    and fail: "runStmt d ps (dbRunner.name rnr) st
                 (capture (CaptureDBStatement (dbRunner.name rnr) st) op1, tx1) = (Inl e, op2, tx2)"
  shows "Run d ps rnr q (op, db) =
           (Some (case fst (rollback d tx2) of Some e' \<Rightarrow> e' | None \<Rightarrow> e), op2, snd (rollback d tx2))"
    and "store op2 = store op"
proof -
  have l: "runStmts d ps (dbRunner.name rnr) (separateStmt (stmt q)) [] (op, tx) = (Inl e, op2, tx2)"
    unfolding sp using pre fail by (rule runStmts_fail_at)
  show "Run d ps rnr q (op, db) =
           (Some (case fst (rollback d tx2) of Some e' \<Rightarrow> e' | None \<Rightarrow> e), op2, snd (rollback d tx2))"
    using b l by (cases "rollback d tx2") (auto simp: Run_def split: option.splits)
  show "store op2 = store op"
    using runStmts_onlyCaptures [OF l] by (rule onlyCaptures_store)
qed

lemma Run_commit:
  assumes b: "beginTx d db = (None, tx)"
    and l: "runStmts d ps (dbRunner.name rnr) (separateStmt (stmt q)) [] (op, tx) = (Inr out, op1, tx1)"
  shows "Run d ps rnr q (op, db) =
           (case fst (commit d tx1) of
              Some e \<Rightarrow> (Some e, op1, snd (commit d tx1))
            | None \<Rightarrow>
                (case record_val op1 (VMap out) of
                   Inl e \<Rightarrow> (Some e, op1, snd (commit d tx1))
                 | Inr op2 \<Rightarrow> (None, op2, snd (commit d tx1))))"
  using b l by (cases "commit d tx1") (auto simp: Run_def split: option.splits sum.splits)

text \<open>
  C2. Once the transaction is open: if a statement fails after the statements
  before it have succeeded, \<^verbatim>\<open>Run\<close> rolls the transaction back and returns the error
  of the statement, or the error of the rollback if that fails too, and the store
  is as before; if every statement succeeds the transaction is committed, and an
  error of the commit is returned as it is. Whenever \<^verbatim>\<open>Run\<close> returns an error the
  store is unchanged.
\<close>

theorem Run_atomicity:
  assumes b: "beginTx d db = (None, tx)"
  shows "(\<forall>pre st post out1 op1 tx1 e op2 tx2.
            separateStmt (stmt q) = pre @ st # post \<longrightarrow>
            runStmts d ps (dbRunner.name rnr) pre [] (op, tx) = (Inr out1, op1, tx1) \<longrightarrow>
            runStmt d ps (dbRunner.name rnr) st
              (capture (CaptureDBStatement (dbRunner.name rnr) st) op1, tx1) = (Inl e, op2, tx2) \<longrightarrow>
            Run d ps rnr q (op, db) =
              (Some (case fst (rollback d tx2) of Some e' \<Rightarrow> e' | None \<Rightarrow> e), op2,
               snd (rollback d tx2)) \<and>
            store op2 = store op) \<and>
         (\<forall>out op1 tx1 e.
            runStmts d ps (dbRunner.name rnr) (separateStmt (stmt q)) [] (op, tx) = (Inr out, op1, tx1) \<longrightarrow>
            (fst (commit d tx1) = Some e \<longrightarrow>
               Run d ps rnr q (op, db) = (Some e, op1, snd (commit d tx1))) \<and>
            snd (snd (Run d ps rnr q (op, db))) = snd (commit d tx1)) \<and>
         (\<forall>e op' db'. Run d ps rnr q (op, db) = (Some e, op', db') \<longrightarrow> store op' = store op)"
proof (intro conjI allI impI)
  fix pre st post out1 op1 tx1 e op2 tx2
  assume sp: "separateStmt (stmt q) = pre @ st # post"
    and pre: "runStmts d ps (dbRunner.name rnr) pre [] (op, tx) = (Inr out1, op1, tx1)"
    and fail: "runStmt d ps (dbRunner.name rnr) st
                 (capture (CaptureDBStatement (dbRunner.name rnr) st) op1, tx1) = (Inl e, op2, tx2)"
  show "Run d ps rnr q (op, db) =
          (Some (case fst (rollback d tx2) of Some e' \<Rightarrow> e' | None \<Rightarrow> e), op2,
           snd (rollback d tx2))"
    using b sp pre fail by (rule Run_statement_error(1))
  show "store op2 = store op"
    using b sp pre fail by (rule Run_statement_error(2))
next
  fix out op1 tx1 e
  assume l: "runStmts d ps (dbRunner.name rnr) (separateStmt (stmt q)) [] (op, tx) = (Inr out, op1, tx1)"
  show "snd (snd (Run d ps rnr q (op, db))) = snd (commit d tx1)"
    using Run_commit [OF b l] by (auto split: option.splits sum.splits)
  assume "fst (commit d tx1) = Some e"
  then show "Run d ps rnr q (op, db) = (Some e, op1, snd (commit d tx1))"
    using Run_commit [OF b l] by simp
next
  fix e op' db'
  assume "Run d ps rnr q (op, db) = (Some e, op', db')"
  then show "store op' = store op" by (rule Run_error_store)
qed

text \<open>
  The script \<^verbatim>\<open>INSERT 1;FAIL;SELECT 2;\<close>: the second statement fails, the insert is
  rolled back, the error of the statement is returned and nothing is recorded.
\<close>

theorem Run_atomicity_witness:
  "beginTx mockDriver ([], []) = (None, ([], [])) \<and>
   (\<exists>op2. Run mockDriver mockParsers mockRunner failingScript (emptyOperator, ([], [])) =
            (Some (External ''constraint failed''), op2, ([], [])) \<and>
          store op2 = store emptyOperator)"
proof -
  let ?rn = "dbRunner.name mockRunner"
  let ?P = "runStmts mockDriver mockParsers ?rn [''INSERT 1;''] [] (emptyOperator, ([], []))"
  let ?F = "runStmt mockDriver mockParsers ?rn ''FAIL;''
              (capture (CaptureDBStatement ?rn ''FAIL;'') (fst (snd ?P)), snd (snd ?P))"
  have b: "beginTx mockDriver ([], []) = (None, ([], []))"
    by (simp add: mockDriver_def)
  have sp: "separateStmt (stmt failingScript) = [''INSERT 1;''] @ ''FAIL;'' # [''SELECT 2;'']"
    by code_simp
  have "\<not> isl (fst ?P)" by code_simp
  then obtain out1 where "fst ?P = Inr out1" by (cases "fst ?P") auto
  then have pre: "?P = (Inr out1, fst (snd ?P), snd (snd ?P))"
    by (cases ?P) auto
  have "fst ?F = Inl (External ''constraint failed'')" and "snd (snd ?F) = ([], [''INSERT 1;''])"
    by code_simp+
  then have fail: "?F = (Inl (External ''constraint failed''), fst (snd ?F), ([], [''INSERT 1;'']))"
    by (cases ?F) auto
  from Run_atomicity [OF b, of failingScript mockParsers mockRunner emptyOperator] sp pre fail
  have "Run mockDriver mockParsers mockRunner failingScript (emptyOperator, ([], [])) =
          (Some (case fst (rollback mockDriver ([], [''INSERT 1;''])) of Some e' \<Rightarrow> e'
                 | None \<Rightarrow> External ''constraint failed''), fst (snd ?F),
           snd (rollback mockDriver ([], [''INSERT 1;'']))) \<and>
        store (fst (snd ?F)) = store emptyOperator"
    by blast
  then show ?thesis using b by (auto simp: mockDriver_def)
qed

subsection \<open>Coercion of column values\<close>

lemma parseUint_digits: "parseUint n ds = Inr m \<Longrightarrow> list_all isDigit ds"
  by (induction ds arbitrary: n) (auto simp: Let_def split: if_splits)

lemma atoi_integerText: "atoi s = Inr n \<Longrightarrow> integerText s"
  by (auto simp: atoi_def integerText_def Let_def dest: parseUint_digits
      split: if_splits sum.splits numError.splits)

text \<open>
  C7. A scanned value that is a \<^verbatim>\<open>[]byte\<close> is coerced by the upper-cased database
  type name \<open>t\<close> of its column: a name that contains \<^verbatim>\<open>TEXT\<close> or \<^verbatim>\<open>CHAR\<close>, or is
  \<^verbatim>\<open>TIME\<close>, keeps the string; \<^verbatim>\<open>DECIMAL\<close>, \<^verbatim>\<open>FLOAT\<close> and \<^verbatim>\<open>DOUBLE\<close> parse a float,
  \<^verbatim>\<open>DATE\<close>, \<^verbatim>\<open>TIMESTAMP\<close> and \<^verbatim>\<open>DATETIME\<close> parse a date, a name that contains
  \<^verbatim>\<open>JSONB\<close> (and neither \<^verbatim>\<open>TEXT\<close> nor \<^verbatim>\<open>CHAR\<close>) unmarshals a mapping, each with the
  failure of the parser as an error; every other name parses an integer, and text
  that does not read as an integer is an error. A value that is no \<^verbatim>\<open>[]byte\<close>
  passes unchanged.
\<close>

theorem coerceColumn_by_type_name:
  assumes t: "t = toUpper tn"
  shows "(containsStr t ''TEXT'' \<or> containsStr t ''CHAR'' \<or> t = ''TIME'' \<longrightarrow>
            coerceColumn ps c tn (VBytes s) = Inr (VString s)) \<and>
         (t = ''DECIMAL'' \<or> t = ''FLOAT'' \<or> t = ''DOUBLE'' \<longrightarrow>
            coerceColumn ps c tn (VBytes s) =
              (case parseFloat ps s of
                 Inl e \<Rightarrow> Inl (invalidColumn c t s e) | Inr num \<Rightarrow> Inr (VFloat num))) \<and>
         (t = ''DATE'' \<or> t = ''TIMESTAMP'' \<or> t = ''DATETIME'' \<longrightarrow>
            coerceColumn ps c tn (VBytes s) =
              (case parseStrict ps s of
                 Inl e \<Rightarrow> Inl (invalidColumn c t s e) | Inr d \<Rightarrow> Inr (VTime d))) \<and>
         (containsStr t ''JSONB'' \<and> \<not> containsStr t ''TEXT'' \<and> \<not> containsStr t ''CHAR'' \<longrightarrow>
            coerceColumn ps c tn (VBytes s) =
              (case jsonUnmarshal ps s of
                 Inl e \<Rightarrow> Inl (invalidColumn c t s e) | Inr m \<Rightarrow> Inr (VMap m))) \<and>
         (\<not> containsStr t ''TEXT'' \<and> \<not> containsStr t ''CHAR'' \<and> \<not> containsStr t ''JSONB'' \<and>
          t \<notin> {''TIME'', ''DECIMAL'', ''FLOAT'', ''DOUBLE'', ''DATE'', ''TIMESTAMP'', ''DATETIME''} \<longrightarrow>
            coerceColumn ps c tn (VBytes s) =
              (case atoi s of
                 Inl e \<Rightarrow> Inl (invalidColumn c t s e) | Inr num \<Rightarrow> Inr (VInt num)) \<and>
            (\<not> integerText s \<longrightarrow> (\<exists>e. coerceColumn ps c tn (VBytes s) = Inl (invalidColumn c t s e)))) \<and>
         ((\<forall>b. v \<noteq> VBytes b) \<longrightarrow> coerceColumn ps c tn v = Inr v)"
proof (intro conjI impI)
  assume "containsStr t ''TEXT'' \<or> containsStr t ''CHAR'' \<or> t = ''TIME''"
  then show "coerceColumn ps c tn (VBytes s) = Inr (VString s)"
    using t by (simp add: coerceColumn_def)
next
  assume "t = ''DECIMAL'' \<or> t = ''FLOAT'' \<or> t = ''DOUBLE''"
  then show "coerceColumn ps c tn (VBytes s) =
      (case parseFloat ps s of Inl e \<Rightarrow> Inl (invalidColumn c t s e) | Inr num \<Rightarrow> Inr (VFloat num))"
    using t [symmetric] by (auto simp: coerceColumn_def)
next
  assume "t = ''DATE'' \<or> t = ''TIMESTAMP'' \<or> t = ''DATETIME''"
  then show "coerceColumn ps c tn (VBytes s) =
      (case parseStrict ps s of Inl e \<Rightarrow> Inl (invalidColumn c t s e) | Inr d \<Rightarrow> Inr (VTime d))"
    using t [symmetric] by (auto simp: coerceColumn_def)
next
  assume a: "containsStr t ''JSONB'' \<and> \<not> containsStr t ''TEXT'' \<and> \<not> containsStr t ''CHAR''"
  then have "t \<noteq> ''TIME''" "t \<noteq> ''DECIMAL''" "t \<noteq> ''FLOAT''" "t \<noteq> ''DOUBLE''"
    "t \<noteq> ''DATE''" "t \<noteq> ''TIMESTAMP''" "t \<noteq> ''DATETIME''"
    by auto
  with a show "coerceColumn ps c tn (VBytes s) =
      (case jsonUnmarshal ps s of Inl e \<Rightarrow> Inl (invalidColumn c t s e) | Inr m \<Rightarrow> Inr (VMap m))"
    using t [symmetric] by (simp add: coerceColumn_def)
next
  assume a: "\<not> containsStr t ''TEXT'' \<and> \<not> containsStr t ''CHAR'' \<and> \<not> containsStr t ''JSONB'' \<and>
      t \<notin> {''TIME'', ''DECIMAL'', ''FLOAT'', ''DOUBLE'', ''DATE'', ''TIMESTAMP'', ''DATETIME''}"
  then show eq: "coerceColumn ps c tn (VBytes s) =
      (case atoi s of Inl e \<Rightarrow> Inl (invalidColumn c t s e) | Inr num \<Rightarrow> Inr (VInt num))"
    using t [symmetric] by (simp add: coerceColumn_def)
  assume "\<not> integerText s"
  then obtain e where "atoi s = Inl e"
    using atoi_integerText by (cases "atoi s") auto
  with eq have "coerceColumn ps c tn (VBytes s) = Inl (invalidColumn c t s e)"
    by simp
  then show "\<exists>e. coerceColumn ps c tn (VBytes s) = Inl (invalidColumn c t s e)"
    by blast
next
  assume "\<forall>b. v \<noteq> VBytes b"
  then show "coerceColumn ps c tn v = Inr v"
    by (cases v) (simp_all add: coerceColumn_def)
qed

text \<open>A \<^verbatim>\<open>decimal\<close> column: \<^verbatim>\<open>3.14\<close> becomes a float, \<^verbatim>\<open>abc\<close> is an error.\<close>

theorem coerceColumn_by_type_name_witness:
  "''DECIMAL'' = toUpper ''decimal'' \<and>
   coerceColumn mockParsers ''price'' ''decimal'' (VBytes ''3.14'') = Inr (VFloat 0x40091EB851EB851F) \<and>
   coerceColumn mockParsers ''price'' ''decimal'' (VBytes ''abc'') =
     Inl (invalidColumn ''price'' ''DECIMAL'' ''abc'' (External ''invalid syntax''))"
proof -
  have t: "''DECIMAL'' = toUpper ''decimal''" by code_simp
  from coerceColumn_by_type_name [OF t, of mockParsers "''price''"] t show ?thesis
    by (simp add: mockParsers_def)
qed

section \<open>Properties of the operator\<close>

subsection \<open>The bind key of a step\<close>

lemma appendDump_no_dump_key:
  "appendDump cs op x = Inr (stp', s') \<Longrightarrow> map_of s' dumpRunnerKey = None"
  by (cases x)
    (auto simp: appendDump_def mapDelete_def map_of_eq_None_iff
      split: option.splits)

lemma appendTest_bind: "appendTest cs op (stp, s) = Inr (stp', s') \<Longrightarrow>
   bindRunner stp' = bindRunner stp \<and> bindCond stp' = bindCond stp"
  by (auto simp: appendTest_def split: option.splits)

lemma appendDump_bind: "appendDump cs op (stp, s) = Inr (stp', s') \<Longrightarrow>
   bindRunner stp' = bindRunner stp \<and> bindCond stp' = bindCond stp"
  by (auto simp: appendDump_def split: option.splits)

lemma appendBind_skipped:
  "map_of s dumpRunnerKey = None \<Longrightarrow> appendBind cs op (stp, s) = Inr (stp, s)"
  by (simp add: appendBind_def)

lemma appendPrimary_bind: "appendPrimary cs op (stp, s) = Inr stp' \<Longrightarrow>
   bindRunner stp' = bindRunner stp \<and> bindCond stp' = bindCond stp"
  by (auto simp: appendPrimary_def pop_def Let_def
      split: option.splits list.splits if_splits)

text \<open>
  Whatever the step configuration, a step that \<^verbatim>\<open>AppendStep\<close> appends has no bind
  runner: by the time the part for the bind runner looks under \<^verbatim>\<open>dumpRunnerKey\<close>, the
  part for the dump runner has deleted that key or has failed.
\<close>

lemma AppendStep_never_binds:
  assumes "AppendStep cs op k s = Inr op'"
  shows "operator.steps op' \<noteq> [] \<and> \<not> bindRunner (last (operator.steps op')) \<and>
         bindCond (last (operator.steps op')) = None"
proof -
  from assms obtain stp1 s1 where
    t: "appendTest cs op (newStep k (operator.debug op), s) = Inr (stp1, s1)"
    by (auto simp: AppendStep_def split: sum.splits)
  from assms t obtain stp2 s2 where d: "appendDump cs op (stp1, s1) = Inr (stp2, s2)"
    by (auto simp: AppendStep_def split: sum.splits)
  have nd: "map_of s2 dumpRunnerKey = None" using d by (rule appendDump_no_dump_key)
  have b: "appendBind cs op (stp2, s2) = Inr (stp2, s2)" using nd by (rule appendBind_skipped)
  from assms t d b obtain stp3 where p: "appendPrimary cs op (stp2, s2) = Inr stp3"
    and op': "op' = op\<lparr>operator.steps := operator.steps op @ [stp3]\<rparr>"
    by (auto simp: AppendStep_def split: sum.splits)
  have "bindRunner stp3 = False \<and> bindCond stp3 = None"
    using appendTest_bind [OF t] appendDump_bind [OF d] appendPrimary_bind [OF p]
    by (simp add: newStep_def)
  with op' show ?thesis by simp
qed

text \<open>
  C3 fails on the code. A step whose only key is \<^verbatim>\<open>bind\<close> is refused, because \<^verbatim>\<open>pop\<close>
  takes \<^verbatim>\<open>bind\<close> for the key of a runner; so is a step with a query and a \<^verbatim>\<open>bind\<close> key
  when \<^verbatim>\<open>range\<close> visits \<^verbatim>\<open>bind\<close> first; and when it visits the query first the step
  is appended with no bind runner and no bind conditions.
\<close>

theorem AppendStep_takes_bind_for_a_runner:
  "AppendStep plainCollaborators dbOperator [] bindOnlyStep =
     Inl (Errorf ''can not find client: %s'' [AStr ''bind'']) \<and>
   AppendStep plainCollaborators dbOperator [] (rev queryAndBindStep) =
     Inl (Errorf ''can not find client: %s'' [AStr ''bind'']) \<and>
   AppendStep plainCollaborators dbOperator [] queryAndBindStep =
     Inr (dbOperator\<lparr>operator.steps :=
            [(newStep [] False)\<lparr>runnerKey := ''db'', dbRunner := Some mockRunner,
               dbQuery := Some [(''query'', VString ''SELECT 1'')]\<rparr>]\<rparr>)"
  by code_simp

section \<open>Properties of the expansion\<close>

subsection \<open>The numeric pattern\<close>






subsection \<open>Strings that look numeric\<close>

lemma replace_no_pairs: "replace [] s = s"
  by (induction s) simp_all









subsection \<open>A payload without placeholders\<close>

lemma replacefunc_no_placeholder:
  "(containsStr f ''{{'' \<longrightarrow> findAllSubmatch lib f = []) \<Longrightarrow>
   replacefunc lib st b f reperr = (f, reperr)"
  by (auto simp: replacefunc_def replace_no_pairs)

lemma replaceFragments_no_placeholder:
  "\<forall>f \<in> set fs. containsStr f ''{{'' \<longrightarrow> findAllSubmatch lib f = [] \<Longrightarrow>
   replaceFragments lib st b fs reperr = (fs, reperr)"
  by (induction fs arbitrary: reperr) (simp_all add: replacefunc_no_placeholder)

text \<open>
  C5. Let the marshalled payload have no placeholder in any of the pieces that are
  handed to \<^verbatim>\<open>replacefunc\<close> (a piece without \<^verbatim>\<open>{{\<close>, or one in which \<^verbatim>\<open>expandRe\<close> finds
  no match). Then \<^verbatim>\<open>replacefunc\<close> returns every piece as it is and sets no error, and
  \<^verbatim>\<open>expand\<close> returns its input, provided the YAML packages do their part: the pieces
  put together again are the document, and the document unmarshals to the value
  it was marshalled from.
\<close>

theorem expand_without_placeholder:
  assumes m: "yamlMarshal lib v = Inr b"
    and nop: "\<forall>f \<in> set (yamlFragments lib b). containsStr f ''{{'' \<longrightarrow> findAllSubmatch lib f = []"
    and asm: "yamlAssemble lib b (yamlFragments lib b) = b"
    and rt: "yamlUnmarshal lib b = Inr v"
  shows "expand lib op v = Inr v"
  using m asm rt replaceFragments_no_placeholder [OF nop]
  by (simp add: expand_def)

text \<open>A payload without a placeholder, expanded with the library of the examples.\<close>

theorem expand_without_placeholder_witness:
  "yamlMarshal toyLib (VString ''name: alice'') = Inr ''name: alice'' \<and>
   expand toyLib emptyOperator (VString ''name: alice'') = Inr (VString ''name: alice'')"
proof -
  have m: "yamlMarshal toyLib (VString ''name: alice'') = Inr ''name: alice''"
    by (simp add: toyLib_def asString_def)
  have nop: "\<forall>f \<in> set (yamlFragments toyLib ''name: alice'').
               containsStr f ''{{'' \<longrightarrow> findAllSubmatch toyLib f = []"
    by (simp add: toyLib_def)
  have asm: "yamlAssemble toyLib ''name: alice'' (yamlFragments toyLib ''name: alice'') = ''name: alice''"
    by (simp add: toyLib_def)
  have rt: "yamlUnmarshal toyLib ''name: alice'' = Inr (VString ''name: alice'')"
    by (simp add: toyLib_def)
  from expand_without_placeholder [OF m nop asm rt] m show ?thesis by simp
qed

section \<open>Properties of the run\<close>

subsection \<open>What a run leaves as it is\<close>

lemma sameConfig_refl: "sameConfig op op"
  by (simp add: sameConfig_def)

lemma sameConfig_trans: "sameConfig a b \<Longrightarrow> sameConfig b c \<Longrightarrow> sameConfig a c"
  by (cases a, cases b, cases c) (auto simp: sameConfig_def)

lemma sameConfig_failFast: "sameConfig op op' \<Longrightarrow> operator.failFast op' = operator.failFast op"
  by (cases op, cases op') (auto simp: sameConfig_def)

lemma sameConfig_useMaps: "sameConfig op op' \<Longrightarrow> operator.useMaps op' = operator.useMaps op"
  by (cases op, cases op') (auto simp: sameConfig_def)

lemma sameConfig_steps: "sameConfig op op' \<Longrightarrow> operator.steps op' = operator.steps op"
  by (cases op, cases op') (auto simp: sameConfig_def)

lemma onlyCaptures_sameConfig: "onlyCaptures op op' \<Longrightarrow> sameConfig op op'"
  by (cases op, cases op') (auto simp: onlyCaptures_def sameConfig_def)

lemma record_val_sameConfig: "record_val op v = Inr op' \<Longrightarrow> sameConfig op op'"
  by (cases op) (auto simp: record_val_def sameConfig_def Let_def split: if_splits)

lemma applyActions_sameConfig: "applyActions op acts = (e, op') \<Longrightarrow> sameConfig op op'"
proof (induction op acts rule: applyActions.induct)
  case (1 op)
  then show ?case by (simp add: sameConfig_refl)
next
  case (2 op v as)
  show ?case
  proof (cases "record_val op v")
    case (Inl p)
    with 2 show ?thesis by (simp add: sameConfig_refl)
  next
    case (Inr op1)
    with 2 have "sameConfig op1 op'" by simp
    with record_val_sameConfig [OF Inr] show ?thesis by (rule sameConfig_trans)
  qed
next
  case (3 op k v as)
  let ?op1 = "op\<lparr>store := (store op)\<lparr>bindVars := mapSet (bindVars (store op)) k v\<rparr>\<rparr>"
  have "sameConfig op ?op1" by (cases op) (simp add: sameConfig_def)
  moreover from 3 have "sameConfig ?op1 op'" by simp
  ultimately show ?case by (rule sameConfig_trans)
qed

lemma callRunner_sameConfig: "callRunner f (op, w) = (e, op', w') \<Longrightarrow> sameConfig op op'"
  by (auto simp: callRunner_def split: prod.splits option.splits dest: applyActions_sameConfig)

lemma Run_sameConfig:
  assumes "Run d ps rnr q (op, db) = (e, op', db')"
  shows "sameConfig op op'"
proof -
  obtain e0 tx where b: "beginTx d db = (e0, tx)" by (cases "beginTx d db")
  obtain r opA txA where
    l: "runStmts d ps (dbRunner.name rnr) (separateStmt (stmt q)) [] (op, tx) = (r, opA, txA)"
    by (metis prod_cases3)
  have oc: "sameConfig op opA"
    using runStmts_onlyCaptures [OF l] by (rule onlyCaptures_sameConfig)
  from assms b l have "op' = op \<or> op' = opA \<or> (\<exists>v. record_val opA v = Inr op')"
    by (auto simp: Run_def split: option.splits prod.splits sum.splits)
  with oc show ?thesis
    using sameConfig_refl sameConfig_trans record_val_sameConfig by blast
qed

lemma runPrimary_sameConfig:
  "runPrimary rs i stp (op, w) = (e, op', w') \<Longrightarrow> sameConfig op op'"
  by (auto simp: runPrimary_def sameConfig_refl
      split: prod.splits option.splits sum.splits bool.splits if_splits
      dest: callRunner_sameConfig Run_sameConfig)

lemma runSide_sameConfig:
  "runSide what f i (op, w) = (e, op', w') \<Longrightarrow> sameConfig op op'"
  by (auto simp: runSide_def split: prod.splits option.splits sum.splits if_splits
      dest: callRunner_sameConfig record_val_sameConfig intro: sameConfig_trans)

lemma runStep_sameConfig:
  assumes "runStep rs i stp (op, w) = (e, op', w')"
  shows "sameConfig op op'"
proof -
  obtain e1 op1 w1 where p: "runPrimary rs i stp (op, w) = (e1, op1, w1)"
    by (metis prod_cases3)
  let ?t = "if testRunner stp \<and> testCond stp \<noteq> []
            then runSide ''test'' (testRun rs (testCond stp)) i (op1, w1) else (None, op1, w1)"
  obtain e2 op2 w2 where t: "?t = (e2, op2, w2)" by (metis prod_cases3)
  let ?d = "if dumpRunner stp \<and> dumpCond stp \<noteq> []
            then runSide ''dump'' (dumpRun rs (dumpCond stp)) i (op2, w2) else (None, op2, w2)"
  obtain e3 op3 w3 where d: "?d = (e3, op3, w3)" by (metis prod_cases3)
  have c1: "sameConfig op op1" using p by (rule runPrimary_sameConfig)
  have c2: "sameConfig op1 op2"
    using t by (auto simp: sameConfig_refl split: if_splits dest: runSide_sameConfig)
  have c3: "sameConfig op2 op3"
    using d by (auto simp: sameConfig_refl split: if_splits dest: runSide_sameConfig)
  have c12: "sameConfig op op2" using c1 c2 by (rule sameConfig_trans)
  have c13: "sameConfig op op3" using c12 c3 by (rule sameConfig_trans)
  from assms p t d have
    "op' = op1 \<or> op' = op2 \<or> op' = op3 \<or>
     (\<exists>c. runSide ''bind'' (bindRun rs c) i (op3, w3) = (e, op', w'))"
    by (auto simp: runStep_def split: option.splits prod.splits bool.splits if_splits)
  then show ?thesis
  proof (elim disjE exE)
    assume "op' = op1" with c1 show ?thesis by simp
  next
    assume "op' = op2" with c12 show ?thesis by simp
  next
    assume "op' = op3" with c13 show ?thesis by simp
  next
    fix c assume "runSide ''bind'' (bindRun rs c) i (op3, w3) = (e, op', w')"
    then have "sameConfig op3 op'" by (rule runSide_sameConfig)
    with c13 show ?thesis by (rule sameConfig_trans)
  qed
qed

lemma runSteps_sameConfig:
  "runSteps rs i stps (op, w) = (e, op', w') \<Longrightarrow> sameConfig op op'"
proof (induction stps arbitrary: i op w)
  case Nil
  then show ?case by (simp add: sameConfig_refl)
next
  case (Cons stp stps)
  obtain e1 op1 w1 where s: "runStep rs i stp (op, w) = (e1, op1, w1)"
    by (metis prod_cases3)
  have c1: "sameConfig op op1" using s by (rule runStep_sameConfig)
  show ?case
  proof (cases e1)
    case None
    with Cons.prems s have "runSteps rs (Suc i) stps (op1, w1) = (e, op', w')" by simp
    from Cons.IH [OF this] have "sameConfig op1 op'" .
    with c1 show ?thesis by (rule sameConfig_trans)
  next
    case (Some a)
    with Cons.prems s c1 show ?thesis by simp
  qed
qed

lemma operatorRun_sameConfig:
  assumes "operatorRun rs (op, w) = (e, op', w')"
  shows "sameConfig op op'"
proof -
  have sk: "sameConfig op (op\<lparr>skipped := True\<rparr>)"
    by (cases op) (simp add: sameConfig_def)
  from assms have
    "op' = op \<or> op' = op\<lparr>skipped := True\<rparr> \<or>
     runSteps rs 0 (operator.steps op) (op, w) = (e, op', w')"
    by (auto simp: operatorRun_def run_def split: if_splits sum.splits option.splits)
  then show ?thesis
  proof (elim disjE)
    assume "op' = op"
    then show ?thesis by (simp add: sameConfig_refl)
  next
    assume "op' = op\<lparr>skipped := True\<rparr>"
    with sk show ?thesis by simp
  next
    assume "runSteps rs 0 (operator.steps op) (op, w) = (e, op', w')"
    then show ?thesis by (rule runSteps_sameConfig)
  qed
qed

subsection \<open>Batches\<close>

lemma RunN_aborts:
  assumes "RunN rs pre w = (None, pre', w1)"
    and "operatorRun rs (op, w1) = (Some e, op', w2)"
    and "operator.failFast op \<or> isPanic e"
  shows "RunN rs (pre @ op # post) w = (Some e, pre' @ op' # post, w2)"
  using assms
proof (induction pre arbitrary: w pre')
  case Nil
  have "operator.failFast op' = operator.failFast op"
    using operatorRun_sameConfig [OF Nil.prems(2)] by (rule sameConfig_failFast)
  with Nil show ?case by auto
next
  case (Cons p pre)
  obtain e0 p' w0 where r: "operatorRun rs (p, w) = (e0, p', w0)" by (metis prod_cases3)
  obtain r1 pre1 w1' where n: "RunN rs pre w0 = (r1, pre1, w1')" by (metis prod_cases3)
  from Cons.prems(1) r n have
    na: "\<not> (case e0 of Some e \<Rightarrow> isPanic e \<or> operator.failFast p' | None \<Rightarrow> False)"
    and eq: "r1 = None" "pre' = p' # pre1" "w1' = w1"
    by (auto split: if_splits option.splits)
  from n eq have "RunN rs pre w0 = (None, pre1, w1)" by simp
  from Cons.IH [OF this Cons.prems(2) Cons.prems(3)]
  have "RunN rs (pre @ op # post) w0 = (Some e, pre1 @ op' # post, w2)" .
  with r na eq show ?case by simp
qed

lemma RunN_continues:
  assumes "\<forall>i < length ops. \<forall>e. fst (fst (runAll rs ops w) ! i) = Some e \<longrightarrow>
             \<not> isPanic e \<and> \<not> operator.failFast (ops ! i)"
  shows "RunN rs ops w = (None, map snd (fst (runAll rs ops w)), snd (runAll rs ops w))"
  using assms
proof (induction ops arbitrary: w)
  case Nil
  show ?case by simp
next
  case (Cons p ops)
  obtain e0 p' w0 where r: "operatorRun rs (p, w) = (e0, p', w0)" by (metis prod_cases3)
  obtain rest w1 where a: "runAll rs ops w0 = (rest, w1)" by (cases "runAll rs ops w0")
  have ff: "operator.failFast p' = operator.failFast p"
    using operatorRun_sameConfig [OF r] by (rule sameConfig_failFast)
  from Cons.prems [rule_format, of 0] r a have
    na: "\<not> (case e0 of Some e \<Rightarrow> isPanic e \<or> operator.failFast p' | None \<Rightarrow> False)"
    by (auto simp: ff split: option.splits)
  have "\<forall>i < length ops. \<forall>e. fst (fst (runAll rs ops w0) ! i) = Some e \<longrightarrow>
          \<not> isPanic e \<and> \<not> operator.failFast (ops ! i)"
  proof (intro allI impI)
    fix i e assume "i < length ops" "fst (fst (runAll rs ops w0) ! i) = Some e"
    with Cons.prems [rule_format, of "Suc i" e] r a
    show "\<not> isPanic e \<and> \<not> operator.failFast (ops ! i)"
      by simp
  qed
  from Cons.IH [OF this] a have "RunN rs ops w0 = (None, map snd rest, w1)" by simp
  with r a na show ?case by simp
qed

text \<open>
  C8. \<^verbatim>\<open>RunN\<close> runs the scenarios one after the other, each in the world the one
  before it has left. When the scenarios before a scenario have not ended the
  batch, and that scenario returns an error and has \<^verbatim>\<open>failFast\<close> set, \<^verbatim>\<open>RunN\<close> returns
  that error and the scenarios behind it are not run. When every error that a
  scenario returns is the error of a scenario without \<^verbatim>\<open>failFast\<close> (and no scenario
  panics), \<^verbatim>\<open>RunN\<close> runs every scenario and returns nil, whatever these scenarios
  return. A panic ends the batch like an error under \<^verbatim>\<open>failFast\<close>.
\<close>

theorem RunN_failFast:
  "(\<forall>pre op post pre' w1 e op' w2.
      ops = pre @ op # post \<longrightarrow> RunN rs pre w = (None, pre', w1) \<longrightarrow>
      operatorRun rs (op, w1) = (Some e, op', w2) \<longrightarrow> operator.failFast op \<longrightarrow>
      RunN rs ops w = (Some e, pre' @ op' # post, w2)) \<and>
   ((\<forall>i < length ops. \<forall>e. fst (fst (runAll rs ops w) ! i) = Some e \<longrightarrow>
        \<not> isPanic e \<and> \<not> operator.failFast (ops ! i)) \<longrightarrow>
      RunN rs ops w = (None, map snd (fst (runAll rs ops w)), snd (runAll rs ops w))) \<and>
   (\<forall>pre op post pre' w1 e op' w2.
      ops = pre @ op # post \<longrightarrow> RunN rs pre w = (None, pre', w1) \<longrightarrow>
      operatorRun rs (op, w1) = (Some e, op', w2) \<longrightarrow> isPanic e \<longrightarrow>
      RunN rs ops w = (Some e, pre' @ op' # post, w2))"
proof (intro conjI allI impI)
  fix pre op post pre' w1 e op' w2
  assume "ops = pre @ op # post" and "RunN rs pre w = (None, pre', w1)"
    and "operatorRun rs (op, w1) = (Some e, op', w2)" and "operator.failFast op"
  then show "RunN rs ops w = (Some e, pre' @ op' # post, w2)"
    by (simp add: RunN_aborts)
next
  assume "\<forall>i < length ops. \<forall>e. fst (fst (runAll rs ops w) ! i) = Some e \<longrightarrow>
            \<not> isPanic e \<and> \<not> operator.failFast (ops ! i)"
  then show "RunN rs ops w = (None, map snd (fst (runAll rs ops w)), snd (runAll rs ops w))"
    by (rule RunN_continues)
next
  fix pre op post pre' w1 e op' w2
  assume "ops = pre @ op # post" and "RunN rs pre w = (None, pre', w1)"
    and "operatorRun rs (op, w1) = (Some e, op', w2)" and "isPanic e"
  then show "RunN rs ops w = (Some e, pre' @ op' # post, w2)"
    by (simp add: RunN_aborts)
qed

text \<open>
  A scenario whose test fails, followed by one that passes: with \<^verbatim>\<open>failFast\<close> the
  batch returns the error and the second scenario is not run; without it the
  batch returns nil and the second scenario has run. A scenario that panics,
  without \<^verbatim>\<open>failFast\<close>: the batch ends with the panic and the second scenario is
  not run.
\<close>

theorem RunN_failFast_witness:
  "RunN mockRunners [failingScenario True, passingScenario] ([], []) =
     (Some testFailure, [failingScenario True, passingScenario], ([], [])) \<and>
   fst (RunN mockRunners [failingScenario False, passingScenario] ([], [])) = None \<and>
   map (\<lambda>op. store.steps (store op))
     (fst (snd (RunN mockRunners [failingScenario False, passingScenario] ([], [])))) = [[], [VNil]] \<and>
   RunN mockRunners [scenario True [testDumpStep ''a''], passingScenario] ([], []) =
     (Some (IndexOutOfRange 1 1),
      [(scenario True [testDumpStep ''a''])\<lparr>store := emptyStore\<lparr>stepMaps := [(''a'', VNil)]\<rparr>\<rparr>,
       passingScenario], ([], []))"
proof -
  let ?w = "([], []) :: string list \<times> string list"
  have r: "operatorRun mockRunners (failingScenario True, ?w) =
             (Some testFailure, failingScenario True, ?w)"
    by code_simp
  have ff: "operator.failFast (failingScenario True)"
    by code_simp
  have n: "RunN mockRunners [] ?w = (None, [], ?w)"
    by simp
  have a: "fst (runAll mockRunners [failingScenario False, passingScenario] ?w) =
             [(Some testFailure, failingScenario False),
              (None, passingScenario\<lparr>store := emptyStore\<lparr>store.steps := [VNil], store.useMaps := False\<rparr>\<rparr>)]"
    by code_simp
  have np: "\<not> isPanic testFailure"
    by code_simp
  have nf: "\<not> operator.failFast (failingScenario False)"
    by code_simp
  have h: "\<forall>i < length [failingScenario False, passingScenario].
             \<forall>e. fst (fst (runAll mockRunners [failingScenario False, passingScenario] ?w) ! i) = Some e \<longrightarrow>
             \<not> isPanic e \<and> \<not> operator.failFast ([failingScenario False, passingScenario] ! i)"
  proof (intro allI impI)
    fix i e
    assume "i < length [failingScenario False, passingScenario]"
      and f: "fst (fst (runAll mockRunners [failingScenario False, passingScenario] ?w) ! i) = Some e"
    then have "i = 0 \<or> i = 1" by auto
    with f a have "i = 0" by auto
    with f a np nf
    show "\<not> isPanic e \<and> \<not> operator.failFast ([failingScenario False, passingScenario] ! i)"
      by simp
  qed
  have s: "store.steps (store (passingScenario\<lparr>store := emptyStore\<lparr>store.steps := [VNil],
             store.useMaps := False\<rparr>\<rparr>)) = [VNil]"
    by simp
  have s0: "store.steps (store (failingScenario False)) = []"
    by code_simp
  have "RunN mockRunners ([] @ failingScenario True # [passingScenario]) ?w =
          (Some testFailure, [] @ failingScenario True # [passingScenario], ?w)"
    using RunN_failFast [of "[] @ failingScenario True # [passingScenario]" mockRunners ?w,
        THEN conjunct1, rule_format, OF refl n r ff] .
  then have 1: "RunN mockRunners [failingScenario True, passingScenario] ?w =
             (Some testFailure, [failingScenario True, passingScenario], ?w)"
    by (simp only: append_Nil)
  have 2: "RunN mockRunners [failingScenario False, passingScenario] ?w =
             (None, map snd (fst (runAll mockRunners [failingScenario False, passingScenario] ?w)),
              snd (runAll mockRunners [failingScenario False, passingScenario] ?w))"
    using RunN_failFast [of "[failingScenario False, passingScenario]" mockRunners ?w,
        THEN conjunct2, THEN conjunct1, THEN mp, OF h] .
  have rp: "operatorRun mockRunners (scenario True [testDumpStep ''a''], ?w) =
     (Some (IndexOutOfRange 1 1),
      (scenario True [testDumpStep ''a''])\<lparr>store := emptyStore\<lparr>stepMaps := [(''a'', VNil)]\<rparr>\<rparr>, ?w)"
    by code_simp
  have ip: "isPanic (IndexOutOfRange 1 1)"
    by (simp add: isPanic_def)
  have "RunN mockRunners ([] @ scenario True [testDumpStep ''a''] # [passingScenario]) ?w =
     (Some (IndexOutOfRange 1 1),
      [] @ (scenario True [testDumpStep ''a''])\<lparr>store := emptyStore\<lparr>stepMaps := [(''a'', VNil)]\<rparr>\<rparr> #
       [passingScenario], ?w)"
    using RunN_failFast [of "[] @ scenario True [testDumpStep ''a''] # [passingScenario]"
        mockRunners ?w, THEN conjunct2, THEN conjunct2, rule_format, OF refl n rp ip] .
  then have 3: "RunN mockRunners [scenario True [testDumpStep ''a''], passingScenario] ?w =
     (Some (IndexOutOfRange 1 1),
      [(scenario True [testDumpStep ''a''])\<lparr>store := emptyStore\<lparr>stepMaps := [(''a'', VNil)]\<rparr>\<rparr>,
       passingScenario], ?w)"
    by (simp only: append_Nil)
  from 1 2 3 a s s0 show ?thesis by simp
qed

subsection \<open>Placeholders for steps that record nothing\<close>

lemma applyActions_quiet:
  "quiet acts \<Longrightarrow> applyActions op acts = (e, op') \<Longrightarrow>
   e = None \<and> store.steps (store op') = store.steps (store op) \<and>
   operator.useMaps op' = operator.useMaps op"
proof (induction op acts rule: applyActions.induct)
  case (1 op)
  then show ?case by simp
next
  case (2 op v as)
  then show ?case by (simp add: quiet_def)
next
  case (3 op k v as)
  then show ?case by (simp add: quiet_def)
qed

lemma runSide_positional:
  assumes pos: "\<not> operator.useMaps op"
    and q: "quietRunner f"
    and ok: "runSide what f i (op, w) = (None, op', w')"
  shows "store.steps (store op') =
           (if length (store.steps (store op)) < i + 1
            then store.steps (store op) @ [VNil] else store.steps (store op)) \<and>
         \<not> operator.useMaps op'"
proof -
  obtain err acts w1 where f: "f op w = (err, acts, w1)" by (metis prod_cases3)
  obtain e1 op1 where a: "applyActions op acts = (e1, op1)" by (cases "applyActions op acts")
  have "quiet acts" using q f by (simp add: quietRunner_def) (metis fst_conv snd_conv)
  from applyActions_quiet [OF this a] have
    s1: "e1 = None" "store.steps (store op1) = store.steps (store op)"
    "operator.useMaps op1 = operator.useMaps op" by simp_all
  from f a s1 have c: "callRunner f (op, w) = (err, op1, w1)"
    by (simp add: callRunner_def)
  from ok c have "err = None" by (auto simp: runSide_def split: option.splits)
  with ok c s1 pos show ?thesis
    by (cases op1) (auto simp: runSide_def record_val_def split: if_splits sum.splits)
qed

text \<open>
  In positional mode the placeholder keeps the results in step. Let the results of
  the steps before step \<open>i\<close> be \<open>i\<close> in number, let the primary runner of the step,
  if it has one, record nothing, and let the side runners be quiet. If the step
  runs a side runner and returns no error, exactly one nil has been appended.
\<close>

lemma runStep_positional_placeholder:
  assumes pos: "\<not> operator.useMaps op"
    and aligned: "length (store.steps (store op)) = i"
    and prim: "runPrimary rs i stp (op, w) = (None, op1, w1)"
    and nrec: "store.steps (store op1) = store.steps (store op)"
    and side: "sideRunners stp"
    and qt: "quietRunner (testRun rs (testCond stp))"
    and qd: "quietRunner (dumpRun rs (dumpCond stp))"
    and qb: "\<forall>c. quietRunner (bindRun rs c)"
    and ok: "runStep rs i stp (op, w) = (None, op', w')"
  shows "store.steps (store op') = store.steps (store op) @ [VNil]"
proof -
  have pos1: "\<not> operator.useMaps op1"
    using runPrimary_sameConfig [OF prim] pos by (simp add: sameConfig_useMaps)
  let ?t = "if testRunner stp \<and> testCond stp \<noteq> []
            then runSide ''test'' (testRun rs (testCond stp)) i (op1, w1) else (None, op1, w1)"
  obtain e2 op2 w2 where t: "?t = (e2, op2, w2)" by (metis prod_cases3)
  let ?d = "if dumpRunner stp \<and> dumpCond stp \<noteq> []
            then runSide ''dump'' (dumpRun rs (dumpCond stp)) i (op2, w2) else (None, op2, w2)"
  obtain e3 op3 w3 where d: "?d = (e3, op3, w3)" by (metis prod_cases3)
  let ?b = "case (bindRunner stp, bindCond stp) of
              (True, Some c) \<Rightarrow> runSide ''bind'' (bindRun rs c) i (op3, w3)
            | _ \<Rightarrow> (None, op3, w3)"
  from ok prim t d have e2: "e2 = None" and e3: "e3 = None" and b: "?b = (None, op', w')"
    by (auto simp: runStep_def split: option.splits prod.splits)
  let ?n = "store.steps (store op)"
  have s2: "store.steps (store op2) =
              (if testRunner stp \<and> testCond stp \<noteq> [] then ?n @ [VNil] else ?n) \<and>
            \<not> operator.useMaps op2"
  proof (cases "testRunner stp \<and> testCond stp \<noteq> []")
    case True
    with t e2 have "runSide ''test'' (testRun rs (testCond stp)) i (op1, w1) = (None, op2, w2)"
      by simp
    from runSide_positional [OF pos1 qt this] nrec aligned True show ?thesis by simp
  next
    case False
    with t pos1 nrec show ?thesis by auto
  qed
  have s3: "store.steps (store op3) =
              (if (testRunner stp \<and> testCond stp \<noteq> []) \<or> (dumpRunner stp \<and> dumpCond stp \<noteq> [])
               then ?n @ [VNil] else ?n) \<and>
            \<not> operator.useMaps op3"
  proof (cases "dumpRunner stp \<and> dumpCond stp \<noteq> []")
    case True
    with d e3 have r: "runSide ''dump'' (dumpRun rs (dumpCond stp)) i (op2, w2) = (None, op3, w3)"
      by simp
    from s2 have p2: "\<not> operator.useMaps op2" by simp
    from runSide_positional [OF p2 qd r] s2 aligned True show ?thesis by auto
  next
    case False
    with d s2 show ?thesis by auto
  qed
  show ?thesis
  proof (cases "bindRunner stp \<and> bindCond stp \<noteq> None")
    case True
    then obtain c where c: "bindCond stp = Some c" and br: "bindRunner stp" by auto
    with b have r: "runSide ''bind'' (bindRun rs c) i (op3, w3) = (None, op', w')" by simp
    from s3 have p3: "\<not> operator.useMaps op3" by simp
    from qb have qc: "quietRunner (bindRun rs c)" by simp
    from runSide_positional [OF p3 qc r] s3 aligned show ?thesis by auto
  next
    case False
    with b have "op' = op3"
      by (auto split: bool.splits option.splits)
    with s3 side False show ?thesis by (auto simp: sideRunners_def)
  qed
qed

text \<open>
  C9 fails on the code in named mode, where \<^verbatim>\<open>o.store.steps\<close> stays empty and the test
  \<^verbatim>\<open>len(o.store.steps) < i+1\<close> holds every time. A step with a test and a dump puts
  two placeholders, the second under the key of the next step, or panics when
  there is no next step; a step with a query and a test panics in the same way
  although the query has recorded its result. The last line is the same scenario
  in positional mode.
\<close>

theorem run_named_mode_placeholders:
  "fst (run mockRunners (scenario True [testDumpStep ''a''], ([], []))) =
     Some (IndexOutOfRange 1 1) \<and>
   stepMaps (store (fst (snd (runStep mockRunners 0 (testDumpStep ''a'')
     (scenario True [testDumpStep ''a'', testStep ''b'' ''true''], ([], [])))))) =
     [(''a'', VNil), (''b'', VNil)] \<and>
   fst (run mockRunners (scenario True [testDumpStep ''a'', testStep ''b'' ''true''], ([], []))) =
     Some (IndexOutOfRange 2 2) \<and>
   fst (run mockRunners (scenario True [queryTestStep ''q''], ([], []))) =
     Some (IndexOutOfRange 1 1) \<and>
   store.steps (store (fst (snd (run mockRunners
     (scenario False [testDumpStep [], testStep [] ''true''], ([], [])))))) = [VNil, VNil]"
  by code_simp

section \<open>Properties of the construction\<close>

subsection \<open>What appending a step changes\<close>

lemma appendTest_key:
  "appendTest cs op (stp, s) = Inr (stp', s') \<Longrightarrow> key stp' = key stp"
  by (auto simp: appendTest_def split: option.splits)

lemma appendDump_key:
  "appendDump cs op (stp, s) = Inr (stp', s') \<Longrightarrow> key stp' = key stp"
  by (auto simp: appendDump_def split: option.splits)

lemma appendBind_key:
  "appendBind cs op (stp, s) = Inr (stp', s') \<Longrightarrow> key stp' = key stp"
  by (auto simp: appendBind_def split: option.splits)

lemma appendPrimary_key:
  "appendPrimary cs op (stp, s) = Inr stp' \<Longrightarrow> key stp' = key stp"
  by (auto simp: appendPrimary_def pop_def Let_def split: option.splits list.splits if_splits)

lemma AppendStep_result:
  assumes "AppendStep cs op k s = Inr op'"
  shows "\<exists>stp. op' = op\<lparr>operator.steps := operator.steps op @ [stp]\<rparr> \<and> key stp = k"
proof -
  from assms obtain stp1 s1 where
    t: "appendTest cs op (newStep k (operator.debug op), s) = Inr (stp1, s1)"
    by (auto simp: AppendStep_def split: sum.splits)
  from assms t obtain stp2 s2 where d: "appendDump cs op (stp1, s1) = Inr (stp2, s2)"
    by (auto simp: AppendStep_def split: sum.splits)
  from assms t d obtain stp3 s3 where b: "appendBind cs op (stp2, s2) = Inr (stp3, s3)"
    by (auto simp: AppendStep_def split: sum.splits)
  from assms t d b obtain stp4 where p: "appendPrimary cs op (stp3, s3) = Inr stp4"
    and op': "op' = op\<lparr>operator.steps := operator.steps op @ [stp4]\<rparr>"
    by (auto simp: AppendStep_def split: sum.splits)
  have "key stp4 = k"
    using appendTest_key [OF t] appendDump_key [OF d] appendBind_key [OF b]
      appendPrimary_key [OF p] by (simp add: newStep_def)
  with op' show ?thesis by blast
qed

lemma appendSteps_result:
  "appendSteps cs bk i ss op = Inr op' \<Longrightarrow>
   \<exists>stps. op' = op\<lparr>operator.steps := operator.steps op @ stps\<rparr> \<and> length stps = length ss \<and>
     (\<forall>j < length ss. key (stps ! j) =
        (if length (stepKeys bk) = length (Steps bk) then stepKeys bk ! (i + j) else []))"
proof (induction ss arbitrary: i op)
  case Nil
  then show ?case by simp
next
  case (Cons s ss)
  let ?k = "if length (stepKeys bk) = length (Steps bk) then stepKeys bk ! i else []"
  from Cons.prems obtain op1 where a: "AppendStep cs op ?k s = Inr op1"
    and r: "appendSteps cs bk (Suc i) ss op1 = Inr op'"
    by (auto simp: Let_def split: option.splits sum.splits)
  from AppendStep_result [OF a] obtain stp where
    op1: "op1 = op\<lparr>operator.steps := operator.steps op @ [stp]\<rparr>" and k: "key stp = ?k"
    by blast
  from Cons.IH [OF r] obtain stps where
    op': "op' = op1\<lparr>operator.steps := operator.steps op1 @ stps\<rparr>"
    and len: "length stps = length ss"
    and keys: "\<forall>j < length ss. key (stps ! j) =
        (if length (stepKeys bk) = length (Steps bk) then stepKeys bk ! (Suc i + j) else [])"
    by blast
  have "op' = op\<lparr>operator.steps := operator.steps op @ (stp # stps)\<rparr>"
    using op1 op' by simp
  moreover have "length (stp # stps) = length (s # ss)" using len by simp
  moreover have "\<forall>j < length (s # ss). key ((stp # stps) ! j) =
        (if length (stepKeys bk) = length (Steps bk) then stepKeys bk ! (i + j) else [])"
  proof (intro allI impI)
    fix j assume j: "j < length (s # ss)"
    show "key ((stp # stps) ! j) =
        (if length (stepKeys bk) = length (Steps bk) then stepKeys bk ! (i + j) else [])"
    proof (cases j)
      case 0
      with k show ?thesis by simp
    next
      case (Suc j')
      with j keys show ?thesis by simp
    qed
  qed
  ultimately show ?case by blast
qed

lemma sameButRunners_refl: "sameButRunners op op"
  by (simp add: sameButRunners_def)

lemma sameButRunners_trans:
  "sameButRunners a b \<Longrightarrow> sameButRunners b c \<Longrightarrow> sameButRunners a c"
  by (cases a, cases b, cases c) (auto simp: sameButRunners_def)

lemma sameButRunners_http:
  "sameButRunners op (op\<lparr>operator.httpRunners := x\<rparr>)"
  by (cases op) (simp add: sameButRunners_def)

lemma sameButRunners_db:
  "sameButRunners op (op\<lparr>operator.dbRunners := x\<rparr>)"
  by (cases op) (simp add: sameButRunners_def)

lemma configuredRunner_same:
  "configuredRunner cs k v (op, errs) = (op', errs') \<Longrightarrow> sameButRunners op op'"
  by (auto simp: configuredRunner_def Let_def sameButRunners_refl sameButRunners_http
        sameButRunners_db
      split: option.splits sum.splits if_splits)

lemma configureRunners_same:
  "configureRunners cs rs (op, errs) = Inr (op', errs') \<Longrightarrow> sameButRunners op op'"
proof (induction rs arbitrary: op errs)
  case Nil
  then show ?case by (simp add: sameButRunners_refl)
next
  case (Cons kv rs)
  obtain k v where kv: "kv = (k, v)" by (cases kv)
  obtain op1 errs1 where c: "configuredRunner cs k v (op, mapDelete errs k) = (op1, errs1)"
    by (cases "configuredRunner cs k v (op, mapDelete errs k)")
  from Cons.prems kv c have "configureRunners cs rs (op1, errs1) = Inr (op', errs')"
    by (auto split: if_splits)
  from Cons.IH [OF this] configuredRunner_same [OF c] show ?case
    using sameButRunners_trans by blast
qed

lemma foldl_http_same:
  "foldl (\<lambda>y kv. ((fst y)\<lparr>operator.httpRunners :=
                           mapSet (operator.httpRunners (fst y)) (fst kv) (snd kv)\<rparr>,
                         mapDelete (snd y) (fst kv))) (op, errs) xs = (op', errs') \<Longrightarrow>
   sameButRunners op op'"
proof (induction xs arbitrary: op errs)
  case Nil
  then show ?case by (simp add: sameButRunners_refl)
next
  case (Cons x xs)
  from Cons.IH [OF Cons.prems [simplified]] show ?case
    using sameButRunners_http sameButRunners_trans by blast
qed

lemma foldl_db_same:
  "foldl (\<lambda>y kv. ((fst y)\<lparr>operator.dbRunners :=
                           mapSet (operator.dbRunners (fst y)) (fst kv) (snd kv)\<rparr>,
                         mapDelete (snd y) (fst kv))) (op, errs) xs = (op', errs') \<Longrightarrow>
   sameButRunners op op'"
proof (induction xs arbitrary: op errs)
  case Nil
  then show ?case by (simp add: sameButRunners_refl)
next
  case (Cons x xs)
  from Cons.IH [OF Cons.prems [simplified]] show ?case
    using sameButRunners_db sameButRunners_trans by blast
qed

lemma givenRunners_same:
  assumes "givenRunners bk (op, errs) = (op', errs')"
  shows "sameButRunners op op'"
proof -
  let ?f = "\<lambda>y kv. ((fst y)\<lparr>operator.httpRunners :=
                           mapSet (operator.httpRunners (fst y)) (fst kv) (snd kv)\<rparr>,
                         mapDelete (snd y) (fst kv))"
  obtain op1 errs1 where h: "foldl ?f (op, errs) (book.httpRunners bk) = (op1, errs1)"
    by (cases "foldl ?f (op, errs) (book.httpRunners bk)")
  from assms h have "foldl (\<lambda>y kv. ((fst y)\<lparr>operator.dbRunners :=
                           mapSet (operator.dbRunners (fst y)) (fst kv) (snd kv)\<rparr>,
                         mapDelete (snd y) (fst kv))) (op1, errs1) (book.dbRunners bk) = (op', errs')"
    by (simp add: givenRunners_def Let_def)
  from foldl_db_same [OF this] foldl_http_same [OF h] show ?thesis
    using sameButRunners_trans by blast
qed

subsection \<open>The mode does not reach the runners\<close>

lemma withMode_http [simp]: "operator.httpRunners (withMode u op) = operator.httpRunners op"
  by (simp add: withMode_def)

lemma withMode_db [simp]: "operator.dbRunners (withMode u op) = operator.dbRunners op"
  by (simp add: withMode_def)

lemma withMode_root [simp]: "root (withMode u op) = root op"
  by (simp add: withMode_def)

lemma withMode_set_http:
  "(withMode u op)\<lparr>operator.httpRunners := x\<rparr> = withMode u (op\<lparr>operator.httpRunners := x\<rparr>)"
  by (simp add: withMode_def)

lemma withMode_set_db:
  "(withMode u op)\<lparr>operator.dbRunners := x\<rparr> = withMode u (op\<lparr>operator.dbRunners := x\<rparr>)"
  by (simp add: withMode_def)

lemma appendTest_outcome:
  "snd x = snd x' \<Longrightarrow>
   map_sum id snd (appendTest cs op x) = map_sum id snd (appendTest cs op' x')"
  by (cases x; cases x') (simp add: appendTest_def split: option.splits)

lemma configuredRunner_withMode:
  "configuredRunner cs k v (withMode u op, errs) =
   apfst (withMode u) (configuredRunner cs k v (op, errs))"
proof (cases "asString v")
  case (Some vv)
  show ?thesis
  proof (cases "hasPrefix vv ''https://'' \<or> hasPrefix vv ''http://''")
    case True
    with Some show ?thesis
      by (cases "newHTTPRunner cs k vv") (simp_all add: configuredRunner_def withMode_set_http)
  next
    case False
    with Some show ?thesis
      by (cases "newDBRunner cs k vv") (simp_all add: configuredRunner_def withMode_set_db)
  qed
next
  case None
  note s = None
  show ?thesis
  proof (cases "asMap v")
    case None
    with s show ?thesis by (simp add: configuredRunner_def)
  next
    case (Some vv)
    note m = Some
    show ?thesis
    proof (cases "readRunnerConfig cs vv")
      case (Inl err)
      with s m show ?thesis by (simp add: configuredRunner_def)
    next
      case (Inr c0)
      define c where "c = (if OpenApi3DocLocation c0 \<noteq> [] \<and>
                             \<not> hasPrefix (OpenApi3DocLocation c0) ''https://'' \<and>
                             \<not> hasPrefix (OpenApi3DocLocation c0) ''http://'' \<and>
                             \<not> hasPrefix (OpenApi3DocLocation c0) ''/''
                          then c0\<lparr>OpenApi3DocLocation := filepathJoin cs (root op) (OpenApi3DocLocation c0)\<rparr>
                          else c0)"
      have l: "configuredRunner cs k v (op, errs) =
        (if Endpoint c \<noteq> [] then
                      (case newHTTPRunner cs k (Endpoint c) of
                         Inl err \<Rightarrow> (op, mapSet errs k err)
                       | Inr hc \<Rightarrow>
                           (case NewHttpValidator cs c of
                              Some err \<Rightarrow> (op, mapSet errs k err)
                            | None \<Rightarrow>
                                (op\<lparr>operator.httpRunners :=
                                      mapSet (operator.httpRunners op) k (hc\<lparr>validator := Some c\<rparr>)\<rparr>,
                                 errs)))
                    else (op, errs))"
        unfolding configuredRunner_def c_def Let_def by (simp only: s m Inr prod.case option.case sum.case)
      have r: "configuredRunner cs k v (withMode u op, errs) =
        (if Endpoint c \<noteq> [] then
                      (case newHTTPRunner cs k (Endpoint c) of
                         Inl err \<Rightarrow> (withMode u op, mapSet errs k err)
                       | Inr hc \<Rightarrow>
                           (case NewHttpValidator cs c of
                              Some err \<Rightarrow> (withMode u op, mapSet errs k err)
                            | None \<Rightarrow>
                                ((withMode u op)\<lparr>operator.httpRunners :=
                                      mapSet (operator.httpRunners (withMode u op)) k (hc\<lparr>validator := Some c\<rparr>)\<rparr>,
                                 errs)))
                    else (withMode u op, errs))"
        unfolding configuredRunner_def c_def Let_def
        by (simp only: s m Inr prod.case option.case sum.case withMode_root)
      show ?thesis
        unfolding l r
        by (cases "newHTTPRunner cs k (Endpoint c)"; cases "NewHttpValidator cs c")
          (simp_all add: withMode_set_http)
    qed
  qed
qed

lemma foldl_http_withMode:
  "foldl (\<lambda>y kv. ((fst y)\<lparr>operator.httpRunners :=
                           mapSet (operator.httpRunners (fst y)) (fst kv) (snd kv)\<rparr>,
                         mapDelete (snd y) (fst kv))) (withMode u op, errs) xs =
   apfst (withMode u)
     (foldl (\<lambda>y kv. ((fst y)\<lparr>operator.httpRunners :=
                           mapSet (operator.httpRunners (fst y)) (fst kv) (snd kv)\<rparr>,
                         mapDelete (snd y) (fst kv))) (op, errs) xs)"
proof (induction xs arbitrary: op errs)
  case Nil
  show ?case by simp
next
  case (Cons x xs)
  show ?case by (simp add: withMode_set_http Cons.IH)
qed

lemma foldl_db_withMode:
  "foldl (\<lambda>y kv. ((fst y)\<lparr>operator.dbRunners :=
                           mapSet (operator.dbRunners (fst y)) (fst kv) (snd kv)\<rparr>,
                         mapDelete (snd y) (fst kv))) (withMode u op, errs) xs =
   apfst (withMode u)
     (foldl (\<lambda>y kv. ((fst y)\<lparr>operator.dbRunners :=
                           mapSet (operator.dbRunners (fst y)) (fst kv) (snd kv)\<rparr>,
                         mapDelete (snd y) (fst kv))) (op, errs) xs)"
proof (induction xs arbitrary: op errs)
  case Nil
  show ?case by simp
next
  case (Cons x xs)
  show ?case by (simp add: withMode_set_db Cons.IH)
qed

lemma givenRunners_withMode:
  "givenRunners bk (withMode u op, errs) = apfst (withMode u) (givenRunners bk (op, errs))"
proof -
  obtain op1 errs1 where h:
    "foldl (\<lambda>y kv. ((fst y)\<lparr>operator.httpRunners :=
                           mapSet (operator.httpRunners (fst y)) (fst kv) (snd kv)\<rparr>,
                         mapDelete (snd y) (fst kv))) (op, errs) (book.httpRunners bk) = (op1, errs1)"
    by (rule prod.exhaust)
  show ?thesis
    by (simp add: givenRunners_def Let_def foldl_http_withMode h foldl_db_withMode)
qed

lemma givenRunners_names:
  "givenRunners (bk\<lparr>stepKeys := ks\<rparr>) x = givenRunners bk x"
  by (simp add: givenRunners_def)

lemma duplicateRunner_withMode: "duplicateRunner (withMode u op) = duplicateRunner op"
  by (simp add: duplicateRunner_def)

subsection \<open>The names of the steps do not decide whether a step is accepted\<close>

lemma appendPrimary_outcome:
  "snd x = snd x' \<Longrightarrow> operator.httpRunners op = operator.httpRunners op' \<Longrightarrow>
   operator.dbRunners op = operator.dbRunners op' \<Longrightarrow>
   outcome (appendPrimary cs op x) = outcome (appendPrimary cs op' x')"
  by (cases x; cases x')
    (simp add: appendPrimary_def pop_def Let_def outcome_def split: option.splits list.splits)

lemma appendDump_outcome:
  "snd x = snd x' \<Longrightarrow>
   map_sum id snd (appendDump cs op x) = map_sum id snd (appendDump cs op' x')"
  by (cases x; cases x') (simp add: appendDump_def split: option.splits)

lemma appendBind_outcome:
  "snd x = snd x' \<Longrightarrow>
   map_sum id snd (appendBind cs op x) = map_sum id snd (appendBind cs op' x')"
  by (cases x; cases x') (simp add: appendBind_def split: option.splits)

lemma outcome_chain:
  "map_sum id snd a = map_sum id snd a' \<Longrightarrow>
   (\<And>x x'. snd x = snd x' \<Longrightarrow> outcome (f x) = outcome (f' x')) \<Longrightarrow>
   outcome (case a of Inl e \<Rightarrow> Inl e | Inr x \<Rightarrow> f x) =
   outcome (case a' of Inl e \<Rightarrow> Inl e | Inr x \<Rightarrow> f' x)"
  by (cases a; cases a') (simp_all add: outcome_def)

lemma outcome_last:
  "outcome a = outcome a' \<Longrightarrow>
   outcome (case a of Inl e \<Rightarrow> Inl e | Inr x \<Rightarrow> Inr (h x)) =
   outcome (case a' of Inl e \<Rightarrow> Inl e | Inr x \<Rightarrow> Inr (h' x))"
  by (cases a; cases a') (simp_all add: outcome_def)

lemma configureRunners_withMode:
  "configureRunners cs rs (withMode u op, errs) =
   map_sum id (apfst (withMode u)) (configureRunners cs rs (op, errs))"
proof (induction rs arbitrary: op errs)
  case Nil
  show ?case by simp
next
  case (Cons kv rs)
  obtain k v where kv: "kv = (k, v)" by (cases kv)
  obtain op1 errs1 where c: "configuredRunner cs k v (op, mapDelete errs k) = (op1, errs1)"
    by (cases "configuredRunner cs k v (op, mapDelete errs k)")
  have c': "configuredRunner cs k v (withMode u op, mapDelete errs k) = (withMode u op1, errs1)"
    by (simp add: configuredRunner_withMode c)
  show ?case
    by (simp add: kv c c' Cons.IH)
qed

lemma AppendStep_outcome:
  assumes h: "operator.httpRunners op = operator.httpRunners op'"
    and d: "operator.dbRunners op = operator.dbRunners op'"
  shows "outcome (AppendStep cs op k s) = outcome (AppendStep cs op' k' s)"
  unfolding AppendStep_def
proof (rule outcome_chain)
  show "map_sum id snd (appendTest cs op (newStep k (operator.debug op), s)) =
        map_sum id snd (appendTest cs op' (newStep k' (operator.debug op'), s))"
    by (rule appendTest_outcome) simp
next
  fix x1 x1' :: "step \<times> (string \<times> val) list"
  assume s1: "snd x1 = snd x1'"
  show "outcome (case appendDump cs op x1 of Inl err \<Rightarrow> Inl err
           | Inr x2 \<Rightarrow>
               (case appendBind cs op x2 of Inl err \<Rightarrow> Inl err
                | Inr x3 \<Rightarrow>
                    (case appendPrimary cs op x3 of Inl err \<Rightarrow> Inl err
                     | Inr stp \<Rightarrow> Inr (op\<lparr>operator.steps := operator.steps op @ [stp]\<rparr>)))) =
        outcome (case appendDump cs op' x1' of Inl err \<Rightarrow> Inl err
           | Inr x2 \<Rightarrow>
               (case appendBind cs op' x2 of Inl err \<Rightarrow> Inl err
                | Inr x3 \<Rightarrow>
                    (case appendPrimary cs op' x3 of Inl err \<Rightarrow> Inl err
                     | Inr stp \<Rightarrow> Inr (op'\<lparr>operator.steps := operator.steps op' @ [stp]\<rparr>))))"
  proof (rule outcome_chain)
    show "map_sum id snd (appendDump cs op x1) = map_sum id snd (appendDump cs op' x1')"
      using s1 by (rule appendDump_outcome)
  next
    fix x2 x2' :: "step \<times> (string \<times> val) list"
    assume s2: "snd x2 = snd x2'"
    show "outcome (case appendBind cs op x2 of Inl err \<Rightarrow> Inl err
                | Inr x3 \<Rightarrow>
                    (case appendPrimary cs op x3 of Inl err \<Rightarrow> Inl err
                     | Inr stp \<Rightarrow> Inr (op\<lparr>operator.steps := operator.steps op @ [stp]\<rparr>))) =
          outcome (case appendBind cs op' x2' of Inl err \<Rightarrow> Inl err
                | Inr x3 \<Rightarrow>
                    (case appendPrimary cs op' x3 of Inl err \<Rightarrow> Inl err
                     | Inr stp \<Rightarrow> Inr (op'\<lparr>operator.steps := operator.steps op' @ [stp]\<rparr>)))"
    proof (rule outcome_chain)
      show "map_sum id snd (appendBind cs op x2) = map_sum id snd (appendBind cs op' x2')"
        using s2 by (rule appendBind_outcome)
    next
      fix x3 x3' :: "step \<times> (string \<times> val) list"
      assume s3: "snd x3 = snd x3'"
      show "outcome (case appendPrimary cs op x3 of Inl err \<Rightarrow> Inl err
                     | Inr stp \<Rightarrow> Inr (op\<lparr>operator.steps := operator.steps op @ [stp]\<rparr>)) =
            outcome (case appendPrimary cs op' x3' of Inl err \<Rightarrow> Inl err
                     | Inr stp \<Rightarrow> Inr (op'\<lparr>operator.steps := operator.steps op' @ [stp]\<rparr>))"
        by (rule outcome_last) (rule appendPrimary_outcome [OF s3 h d])
    qed
  qed
qed

lemma appendSteps_outcome:
  "operator.httpRunners op = operator.httpRunners op' \<Longrightarrow>
   operator.dbRunners op = operator.dbRunners op' \<Longrightarrow>
   outcome (appendSteps cs bk i ss op) = outcome (appendSteps cs bk' i ss op')"
proof (induction ss arbitrary: i op op')
  case Nil
  show ?case by (simp add: outcome_def)
next
  case (Cons s ss)
  show ?case
  proof (cases "validateStepKeys s")
    case (Some err)
    then show ?thesis by (simp add: outcome_def)
  next
    case None
    let ?k = "if length (stepKeys bk) = length (Steps bk) then stepKeys bk ! i else []"
    let ?k' = "if length (stepKeys bk') = length (Steps bk') then stepKeys bk' ! i else []"
    have o: "outcome (AppendStep cs op ?k s) = outcome (AppendStep cs op' ?k' s)"
      using Cons.prems by (rule AppendStep_outcome)
    show ?thesis
    proof (cases "AppendStep cs op ?k s")
      case (Inl e)
      with o have "AppendStep cs op' ?k' s = Inl e"
        by (cases "AppendStep cs op' ?k' s") (simp_all add: outcome_def)
      with Inl None show ?thesis by (simp add: Let_def outcome_def)
    next
      case (Inr op1)
      with o obtain op1' where r': "AppendStep cs op' ?k' s = Inr op1'"
        by (cases "AppendStep cs op' ?k' s") (simp_all add: outcome_def)
      from AppendStep_result [OF Inr] obtain stp where
        op1: "op1 = op\<lparr>operator.steps := operator.steps op @ [stp]\<rparr>" by blast
      from AppendStep_result [OF r'] obtain stp' where
        op1': "op1' = op'\<lparr>operator.steps := operator.steps op' @ [stp']\<rparr>" by blast
      have hh: "operator.httpRunners op1 = operator.httpRunners op1'"
        and dd: "operator.dbRunners op1 = operator.dbRunners op1'"
        using Cons.prems op1 op1' by simp_all
      have "outcome (appendSteps cs bk (Suc i) ss op1) = outcome (appendSteps cs bk' (Suc i) ss op1')"
        using hh dd by (rule Cons.IH)
      with Inr r' None show ?thesis by (simp add: Let_def)
    qed
  qed
qed

lemma baseOp_names: "baseOp (bk\<lparr>stepKeys := ks\<rparr>) rt = baseOp bk rt"
  by (simp add: baseOp_def)

lemma newOperator_shape:
  "newOperator cs bk =
     (case (if path bk \<noteq> [] then Inr (filepathDir cs (path bk)) else getwd cs) of
        Inl err \<Rightarrow> Inl err
      | Inr rt \<Rightarrow>
          (case configureRunners cs (Runners bk) (baseOp bk rt, runnerErrs bk) of
             Inl err \<Rightarrow> Inl err
           | Inr x \<Rightarrow>
               (case duplicateRunner (fst (givenRunners bk x)) of
                  Some k \<Rightarrow> Inl (Errorf ''duplicate runner names: %s'' [AStr k])
                | None \<Rightarrow>
                    if snd (givenRunners bk x) \<noteq> []
                    then Inl (MultiError
                           (map (\<lambda>ke. Errorf ''runner %s error: %w''
                                        [AStr (fst ke), AErr (snd ke)]) (snd (givenRunners bk x))))
                    else appendSteps cs bk 0 (Steps bk)
                           (withMode (length (stepKeys bk) = length (Steps bk))
                              (fst (givenRunners bk x))))))"
proof -
  let ?um = "length (stepKeys bk) = length (Steps bk)"
  have op0: "\<And>rt. \<lparr>operator.httpRunners = [], operator.dbRunners = [], operator.steps = [],
                 store = \<lparr>store.steps = [], stepMaps = [], vars = Vars bk, bindVars = [],
                          store.useMaps = ?um\<rparr>,
                 desc = Desc bk, operator.useMaps = ?um, operator.debug = Debug bk,
                 root = [], operator.failFast = book.failFast bk,
                 operator.included = book.included bk, cond = IfCond bk, skipped = False,
                 capturers = []\<rparr>\<lparr>root := rt\<rparr> = withMode ?um (baseOp bk rt)"
    by (simp add: withMode_def baseOp_def)
  show ?thesis
  proof (cases "if path bk \<noteq> [] then Inr (filepathDir cs (path bk)) else getwd cs")
    case (Inl err)
    then show ?thesis by (simp add: newOperator_def Let_def)
  next
    case (Inr rt)
    note rt = Inr
    show ?thesis
    proof (cases "configureRunners cs (Runners bk) (baseOp bk rt, runnerErrs bk)")
      case (Inl err)
      have "configureRunners cs (Runners bk) (withMode ?um (baseOp bk rt), runnerErrs bk) = Inl err"
        by (simp add: configureRunners_withMode Inl)
      then show ?thesis
        unfolding newOperator_def Let_def rt op0 sum.case Inl by simp
    next
      case (Inr x)
      obtain opx ex where x: "x = (opx, ex)" by (cases x)
      obtain op1 errs where g: "givenRunners bk (opx, ex) = (op1, errs)"
        by (cases "givenRunners bk (opx, ex)")
      have c: "configureRunners cs (Runners bk) (withMode ?um (baseOp bk rt), runnerErrs bk) =
          Inr (withMode ?um opx, ex)"
        by (simp add: configureRunners_withMode Inr x)
      have g': "givenRunners bk (withMode ?um opx, ex) = (withMode ?um op1, errs)"
        by (simp add: givenRunners_withMode g)
      show ?thesis
      proof (cases "duplicateRunner op1")
        case (Some k)
        show ?thesis
          unfolding newOperator_def Let_def rt op0 sum.case Inr c
          by (simp add: x g g' duplicateRunner_withMode Some)
      next
        case None
        show ?thesis
          unfolding newOperator_def Let_def rt op0 sum.case Inr c
          by (cases "errs = []") (simp_all add: x g g' duplicateRunner_withMode None)
      qed
    qed
  qed
qed

lemma newOperator_names:
  "outcome (newOperator cs (bk\<lparr>stepKeys := ks\<rparr>)) = outcome (newOperator cs bk)"
proof -
  let ?bk = "bk\<lparr>stepKeys := ks\<rparr>"
  show ?thesis
  proof (cases "if path bk \<noteq> [] then Inr (filepathDir cs (path bk)) else getwd cs")
    case (Inl err)
    show ?thesis by (simp add: newOperator_shape Inl cong: if_cong)
  next
    case (Inr rt)
    note rt = Inr
    show ?thesis
    proof (cases "configureRunners cs (Runners bk) (baseOp bk rt, runnerErrs bk)")
      case (Inl err)
      show ?thesis by (simp add: newOperator_shape rt baseOp_names Inl cong: if_cong)
    next
      case (Inr x)
      note x = Inr
      show ?thesis
      proof (cases "duplicateRunner (fst (givenRunners bk x))")
        case (Some k)
        show ?thesis
          by (simp add: newOperator_shape rt baseOp_names x givenRunners_names Some cong: if_cong)
      next
        case None
        show ?thesis
        proof (cases "snd (givenRunners bk x) = []")
          case False
          show ?thesis
            by (simp add: newOperator_shape rt baseOp_names x givenRunners_names None False cong: if_cong)
        next
          case True
          have a: "outcome (appendSteps cs ?bk 0 (Steps bk)
                  (withMode (length ks = length (Steps bk)) (fst (givenRunners bk x)))) =
                outcome (appendSteps cs bk 0 (Steps bk)
                  (withMode (length (stepKeys bk) = length (Steps bk)) (fst (givenRunners bk x))))"
            by (rule appendSteps_outcome) simp_all
          show ?thesis
            by (simp add: newOperator_shape rt baseOp_names x givenRunners_names None True a cong: if_cong)
        qed
      qed
    qed
  qed
qed

lemma applyOptions_snoc:
  "applyOptions (opts @ [f]) b =
     (case applyOptions opts b of Inl err \<Rightarrow> Inl err | Inr b' \<Rightarrow> f b')"
  by (induction opts arbitrary: b) (simp_all split: sum.splits)

lemma outcome_Inl: "(outcome r = Some e) = (r = Inl e)"
  by (cases r) (simp_all add: outcome_def)

lemma sameButRunners_fields:
  "sameButRunners op op' \<Longrightarrow>
   operator.steps op' = operator.steps op \<and> desc op' = desc op \<and>
   operator.useMaps op' = operator.useMaps op \<and> store op' = store op"
  by (cases op, cases op') (simp add: sameButRunners_def)

lemma newOperator_result:
  assumes ok: "newOperator cs bk = Inr op"
  shows "operator.useMaps op = (length (stepKeys bk) = length (Steps bk)) \<and>
         store.useMaps (store op) = (length (stepKeys bk) = length (Steps bk)) \<and>
         desc op = Desc bk \<and>
         length (operator.steps op) = length (Steps bk) \<and>
         (\<forall>j < length (Steps bk). key (operator.steps op ! j) =
            (if length (stepKeys bk) = length (Steps bk) then stepKeys bk ! j else []))"
proof -
  let ?um = "length (stepKeys bk) = length (Steps bk)"
  from ok obtain rt where
    rt: "(if path bk \<noteq> [] then Inr (filepathDir cs (path bk)) else getwd cs) = Inr rt"
    by (cases "if path bk \<noteq> [] then Inr (filepathDir cs (path bk)) else getwd cs")
      (simp_all add: newOperator_shape cong: if_cong)
  from ok rt obtain x where
    x: "configureRunners cs (Runners bk) (baseOp bk rt, runnerErrs bk) = Inr x"
    by (cases "configureRunners cs (Runners bk) (baseOp bk rt, runnerErrs bk)")
      (simp_all add: newOperator_shape cong: if_cong)
  obtain opx ex where xx: "x = (opx, ex)" by (cases x)
  obtain op1 errs where g: "givenRunners bk (opx, ex) = (op1, errs)"
    by (cases "givenRunners bk (opx, ex)")
  from ok rt x xx g have a: "appendSteps cs bk 0 (Steps bk) (withMode ?um op1) = Inr op"
    by (cases "duplicateRunner op1"; cases "errs = []")
      (simp_all add: newOperator_shape cong: if_cong)
  have "sameButRunners (baseOp bk rt) opx"
    using x xx by (simp add: configureRunners_same)
  moreover have "sameButRunners opx op1"
    using g by (rule givenRunners_same)
  ultimately have "sameButRunners (baseOp bk rt) op1"
    by (rule sameButRunners_trans)
  from sameButRunners_fields [OF this] have
    f: "operator.steps op1 = []" "desc op1 = Desc bk"
    by (simp_all add: baseOp_def)
  from appendSteps_result [OF a] obtain stps where
    op: "op = (withMode ?um op1)\<lparr>operator.steps := operator.steps (withMode ?um op1) @ stps\<rparr>"
    and len: "length stps = length (Steps bk)"
    and keys: "\<forall>j < length (Steps bk). key (stps ! j) =
        (if length (stepKeys bk) = length (Steps bk) then stepKeys bk ! (0 + j) else [])"
    by blast
  have st: "operator.steps op = stps"
    using op f by (simp add: withMode_def)
  have "operator.useMaps op = ?um" "store.useMaps (store op) = ?um" "desc op = Desc bk"
    using op f by (simp_all add: withMode_def)
  with st len keys show ?thesis by simp
qed

text \<open>
  C10. Let \<open>bk\<close> be the book that the options of \<^verbatim>\<open>New\<close> have filled. The names declared
  for the steps are no cause of failure: with any other list of names, whatever its
  length, \<^verbatim>\<open>New\<close> returns the same error or succeeds as well. When \<^verbatim>\<open>New\<close> succeeds, the
  operator and its store are in named mode exactly when there are as many names as
  steps. If the numbers differ, step \<open>i\<close> is reported as \<^verbatim>\<open>'desc'.steps[i]\<close> and a result
  is appended to the list of the store; if they agree, step \<open>i\<close> is reported as
  \<^verbatim>\<open>'desc'.steps.name\<close> with its own name, and a result is stored under the name of
  the next step (with no step at all a result is appended to the list).
\<close>

theorem New_selects_store_mode:
  assumes bk: "applyOptions opts (newBook cs) = Inr bk"
  shows "(New cs (opts @ [renameSteps ks]) = Inl e \<longleftrightarrow> New cs opts = Inl e) \<and>
         (\<forall>op. New cs opts = Inr op \<longrightarrow>
            operator.useMaps op = (length (stepKeys bk) = length (Steps bk)) \<and>
            store.useMaps (store op) = (length (stepKeys bk) = length (Steps bk)) \<and>
            length (operator.steps op) = length (Steps bk) \<and>
            (\<forall>i < length (Steps bk).
               stepName op i =
                 (if length (stepKeys bk) = length (Steps bk)
                  then [squote] @ Desc bk @ [squote] @ ''.steps.'' @ stepKeys bk ! i
                  else [squote] @ Desc bk @ [squote] @ ''.steps['' @ showNat i @ '']'')) \<and>
            (\<forall>op2 v. operator.useMaps op2 = operator.useMaps op \<and>
                     operator.steps op2 = operator.steps op \<longrightarrow>
               record_val op2 v =
                 (if length (stepKeys bk) = length (Steps bk) \<and> Steps bk \<noteq> []
                  then (if length (stepMaps (store op2)) < length (Steps bk)
                        then Inr (op2\<lparr>store := (store op2)\<lparr>stepMaps :=
                               mapSet (stepMaps (store op2))
                                 (stepKeys bk ! length (stepMaps (store op2))) v\<rparr>\<rparr>)
                        else Inl (IndexOutOfRange (length (stepMaps (store op2)))
                               (length (Steps bk))))
                  else Inr (op2\<lparr>store := (store op2)\<lparr>store.steps :=
                              store.steps (store op2) @ [v]\<rparr>\<rparr>))))"
proof (intro conjI allI impI)
  have n: "New cs opts = newOperator cs bk"
    by (simp add: New_def bk)
  have n': "New cs (opts @ [renameSteps ks]) = newOperator cs (bk\<lparr>stepKeys := ks\<rparr>)"
    by (simp add: New_def applyOptions_snoc bk renameSteps_def)
  show "(New cs (opts @ [renameSteps ks]) = Inl e) = (New cs opts = Inl e)"
    using newOperator_names [of cs ks bk] unfolding n n'
    by (simp add: outcome_Inl [symmetric])
  fix op
  assume ok: "New cs opts = Inr op"
  then have r: "newOperator cs bk = Inr op" by (simp add: n)
  note res = newOperator_result [OF r]
  show "operator.useMaps op = (length (stepKeys bk) = length (Steps bk))"
    using res by simp
  show "store.useMaps (store op) = (length (stepKeys bk) = length (Steps bk))"
    using res by simp
  show "length (operator.steps op) = length (Steps bk)"
    using res by simp
  show "stepName op i =
                 (if length (stepKeys bk) = length (Steps bk)
                  then [squote] @ Desc bk @ [squote] @ ''.steps.'' @ stepKeys bk ! i
                  else [squote] @ Desc bk @ [squote] @ ''.steps['' @ showNat i @ '']'')"
    if "i < length (Steps bk)" for i
    using res that by (simp add: stepName_def)
  show "record_val op2 v =
                 (if length (stepKeys bk) = length (Steps bk) \<and> Steps bk \<noteq> []
                  then (if length (stepMaps (store op2)) < length (Steps bk)
                        then Inr (op2\<lparr>store := (store op2)\<lparr>stepMaps :=
                               mapSet (stepMaps (store op2))
                                 (stepKeys bk ! length (stepMaps (store op2))) v\<rparr>\<rparr>)
                        else Inl (IndexOutOfRange (length (stepMaps (store op2)))
                               (length (Steps bk))))
                  else Inr (op2\<lparr>store := (store op2)\<lparr>store.steps :=
                              store.steps (store op2) @ [v]\<rparr>\<rparr>))"
    if "operator.useMaps op2 = operator.useMaps op \<and> operator.steps op2 = operator.steps op"
    for op2 v
    using res that by (simp add: record_val_def Let_def)
qed

text \<open>
  Two steps and one name: \<^verbatim>\<open>New\<close> succeeds, the operator is in positional mode, the
  second step is reported as \<^verbatim>\<open>'login'.steps[1]\<close>, a result goes to the list, and
  declaring two names succeeds as well.
\<close>

theorem New_selects_store_mode_witness:
  "\<exists>op. New plainCollaborators [twoSteps, renameSteps [''a'']] = Inr op \<and>
        \<not> operator.useMaps op \<and>
        stepName op 1 = [squote] @ ''login'' @ [squote] @ ''.steps[1]'' \<and>
        record_val op VNil = Inr (op\<lparr>store := (store op)\<lparr>store.steps :=
                              store.steps (store op) @ [VNil]\<rparr>\<rparr>) \<and>
        \<not> isl (New plainCollaborators ([twoSteps, renameSteps [''a'']] @ [renameSteps [''a'', ''b'']]))"
proof -
  let ?bk = "emptyBook\<lparr>Desc := ''login'',
             Steps := [[(''test'', VString ''true'')], [(''dump'', VString ''steps'')]],
             stepKeys := [''a'']\<rparr>"
  let ?opts = "[twoSteps, renameSteps [''a'']]"
  have h: "applyOptions ?opts (newBook plainCollaborators) = Inr ?bk"
    by (simp add: twoSteps_def renameSteps_def plainCollaborators_def)
  have "\<not> isl (New plainCollaborators ?opts)"
    by code_simp
  then obtain op where ok: "New plainCollaborators ?opts = Inr op"
    by (cases "New plainCollaborators ?opts") simp_all
  note t = New_selects_store_mode [OF h, of "[''a'', ''b'']"]
  have one: "digitChar (Suc 0) = CHR ''1''" by code_simp
  from t ok have m: "\<not> operator.useMaps op"
    by simp
  from t [THEN conjunct2, rule_format, OF ok] have
    sn: "stepName op 1 = [squote] @ ''login'' @ [squote] @ ''.steps[1]''"
    by (simp add: one)
  from t [THEN conjunct2, rule_format, OF ok] have
    rec: "record_val op VNil = Inr (op\<lparr>store := (store op)\<lparr>store.steps :=
                              store.steps (store op) @ [VNil]\<rparr>\<rparr>)"
    by simp
  have "\<not> isl (New plainCollaborators (?opts @ [renameSteps [''a'', ''b'']]))"
  proof
    assume "isl (New plainCollaborators (?opts @ [renameSteps [''a'', ''b'']]))"
    then obtain e where "New plainCollaborators (?opts @ [renameSteps [''a'', ''b'']]) = Inl e"
      by (cases "New plainCollaborators (?opts @ [renameSteps [''a'', ''b'']])") simp_all
    with t [of e] ok show False by simp
  qed
  with ok m sn rec show ?thesis by blast
qed

end
